theory Spec2Isabelle
  imports
    Main
    "HOL-Library.Finite_Map"
    "HOL-Library.Char_ord"
    "HOL-Library.List_Lexorder"
begin

section \<open>Library functions the program calls\<close>

text \<open>
  Go strings are byte sequences and are modelled as \<^typ>\<open>string\<close>. Comparison of strings
  (used by \<open>slices.Sorted\<close>) is the bytewise lexicographic order, which is the order
  on \<^typ>\<open>char list\<close> given by the two library theories imported above.

  \<open>strings.TrimSpace\<close> removes the leading and the trailing white-space runes of the
  UTF-8 text, white space being \<open>unicode.IsSpace\<close>: the code points U+0009 to U+000D,
  U+0020, U+0085, U+00A0, U+1680, U+2000 to U+200A, U+2028, U+2029, U+202F, U+205F and
  U+3000. A rune at the start or at the end of a string is one of these exactly when
  the string starts or ends with its UTF-8 encoding: bytes that are not a valid encoding
  decode to the error rune, one byte wide, which is not white space, and from the end
  the decoder goes back to the nearest byte that starts a rune, which is the first byte
  of the encoding. \<open>whiteSpace\<close> lists the encodings; none is a prefix of another.
\<close>

definition whiteSpace :: "string list" where
  "whiteSpace =
     map (\<lambda>c. [c]) [CHR 0x09, CHR 0x0A, CHR 0x0B, CHR 0x0C, CHR 0x0D, CHR 0x20] @
     [[CHR 0xC2, CHR 0x85], [CHR 0xC2, CHR 0xA0], [CHR 0xE1, CHR 0x9A, CHR 0x80]] @
     map (\<lambda>c. [CHR 0xE2, CHR 0x80, c])
       [CHR 0x80, CHR 0x81, CHR 0x82, CHR 0x83, CHR 0x84, CHR 0x85, CHR 0x86, CHR 0x87,
        CHR 0x88, CHR 0x89, CHR 0x8A, CHR 0xA8, CHR 0xA9, CHR 0xAF] @
     [[CHR 0xE2, CHR 0x81, CHR 0x9F], [CHR 0xE3, CHR 0x80, CHR 0x80]]"

text \<open>Removing, again and again, a leading byte sequence that is in the list.\<close>

function trimPrefixes :: "string list \<Rightarrow> string \<Rightarrow> string" where
  "trimPrefixes ws s =
     (case find (\<lambda>w. w \<noteq> [] \<and> take (length w) s = w) ws of
        None \<Rightarrow> s
      | Some w \<Rightarrow> trimPrefixes ws (drop (length w) s))"
  by pat_completeness auto
termination
proof (relation "measure (\<lambda>(ws, s). length s)")
  show "wf (measure (\<lambda>(ws, s). length s))"
    by simp
next
  fix ws :: "string list" and s w :: string
  assume "find (\<lambda>w. w \<noteq> [] \<and> take (length w) s = w) ws = Some w"
  then have "w \<noteq> []" and "take (length w) s = w"
    by (auto simp: find_Some_iff)
  then have "s \<noteq> []"
    by auto
  then show "((ws, drop (length w) s), (ws, s)) \<in> measure (\<lambda>(ws, s). length s)"
    using \<open>w \<noteq> []\<close> by simp
qed

declare trimPrefixes.simps [simp del]

definition TrimSpace :: "string \<Rightarrow> string" where
  "TrimSpace s = rev (trimPrefixes (map rev whiteSpace) (rev (trimPrefixes whiteSpace s)))"

text \<open>\<open>strings.Cut(s, "=")\<close>: the text before and after the first \<open>=\<close>, and whether
  there was one.\<close>

definition Cut :: "string \<Rightarrow> string \<times> string \<times> bool" where
  "Cut s =
     (if CHR ''='' \<in> set s
      then (takeWhile (\<lambda>c. c \<noteq> CHR ''='') s, tl (dropWhile (\<lambda>c. c \<noteq> CHR ''='') s), True)
      else (s, [], False))"

text \<open>\<open>strings.Split(s, "\n")\<close>: the pieces between the separators; never empty.\<close>

fun Split :: "char \<Rightarrow> string \<Rightarrow> string list" where
  "Split sep [] = [[]]"
| "Split sep (c # cs) =
     (if c = sep then [] # Split sep cs
      else (case Split sep cs of w # ws \<Rightarrow> (c # w) # ws | [] \<Rightarrow> [[c]]))"

text \<open>\<open>strings.Join(elems, sep)\<close>.\<close>

fun Join :: "string list \<Rightarrow> string \<Rightarrow> string" where
  "Join [] sep = []"
| "Join [x] sep = x"
| "Join (x # y # ys) sep = x @ sep @ Join (y # ys) sep"

text \<open>\<open>aws.ToString\<close>: a nil pointer reads as the empty string.\<close>

definition ToString :: "string option \<Rightarrow> string" where
  "ToString p = (case p of None \<Rightarrow> [] | Some s \<Rightarrow> s)"

text \<open>\<open>hex.EncodeToString\<close> on a byte slice; a byte is a \<^typ>\<open>char\<close>.\<close>

definition hexdigit :: "nat \<Rightarrow> char" where
  "hexdigit n = ''0123456789abcdef'' ! (n mod 16)"

definition EncodeToString :: "char list \<Rightarrow> string" where
  "EncodeToString b =
     concat (map (\<lambda>c. [hexdigit (of_char c div 16), hexdigit (of_char c mod 16)]) b)"

section \<open>Data of the CloudFormation API\<close>

text \<open>Pointer-typed fields of the SDK structs are options; \<open>types.ResourceStatus\<close> is a
  string type. Time stamps are instants in nanoseconds.\<close>

record Parameter =
  ParameterKey :: "string option"
  ParameterValue :: "string option"
  UsePreviousValue :: "bool option"

record Stack =
  Parameters :: "Parameter list"
  Capabilities :: "string list"
  NotificationARNs :: "string list"

record StackEvent =
  Timestamp :: "int option"
  ClientRequestToken :: "string option"
  ResourceStatus :: string
  ResourceStatusReason :: "string option"
  ResourceType :: "string option"
  LogicalResourceId :: "string option"

record UpdateStackInput =
  in_StackName :: string
  in_ClientRequestToken :: string
  in_UsePreviousTemplate :: bool
  in_Parameters :: "Parameter list"
  in_Capabilities :: "string list"
  in_NotificationARNs :: "string list"

definition ResourceStatusUpdateFailed :: string where
  "ResourceStatusUpdateFailed = ''UPDATE_FAILED''"

definition ResourceStatusUpdateComplete :: string where
  "ResourceStatusUpdateComplete = ''UPDATE_COMPLETE''"

definition ResourceStatusUpdateRollbackComplete :: string where
  "ResourceStatusUpdateRollbackComplete = ''UPDATE_ROLLBACK_COMPLETE''"

definition ResourceStatusRollbackFailed :: string where
  "ResourceStatusRollbackFailed = ''ROLLBACK_FAILED''"

definition Hour :: int where
  "Hour = 3600 * 1000000000"

section \<open>Errors\<close>

text \<open>
  An error of the SDK either carries a \<open>smithy.APIError\<close> in its chain (then
  \<open>errors.As\<close> finds it, with its code and message) or it does not.
\<close>

datatype sdk_error =
  APIError (ErrorCode: string) (ErrorMessage: string)
| OtherError string

datatype ctx_error = Canceled | DeadlineExceeded

text \<open>
  One constructor for each error the program makes:
  \<^item> \<open>StackNameUnset\<close>: "stack name must be set";
  \<^item> \<open>EmptyParametersList\<close>: "empty parameters list";
  \<^item> \<open>WrongFormat line\<close>: "wrong parameter format, want key=value pair: ...";
  \<^item> \<open>EmptyKeyOrValue line\<close>: "wrong parameter format, both key and value must be non-empty: ...";
  \<^item> \<open>DuplicateKey k\<close>: "duplicate key in parameters list: ...";
  \<^item> \<open>ArgsEmpty\<close>: "stack, key, and value cannot be empty";
  \<^item> \<open>AlreadySet\<close>: the value \<open>errAlreadySet\<close>;
  \<^item> \<open>NoSuchKey\<close>: "stack has no parameter with the given key";
  \<^item> \<open>StacksCount l\<close>: "DescribeStacks returned l stacks, expected 1";
  \<^item> \<open>UnknownParameters names\<close>: "stack has no parameters with these names: ...";
  \<^item> \<open>ResourceUpdateFailed status reason\<close>: "status: reason";
  \<^item> \<open>RolledBack status\<close>: "status, see AWS CloudFormation Console for more details";
  \<^item> \<open>SDK e\<close>: an error returned by a call of the SDK;
  \<^item> \<open>ContextDone e\<close>: \<open>ctx.Err()\<close>.
\<close>

datatype error =
  StackNameUnset
| EmptyParametersList
| WrongFormat string
| EmptyKeyOrValue string
| DuplicateKey string
| ArgsEmpty
| AlreadySet
| NoSuchKey
| StacksCount nat
| UnknownParameters "string list"
| ResourceUpdateFailed string string
| RolledBack string
| SDK sdk_error
| ContextDone ctx_error

text \<open>The texts of the errors that are formatted from data of the run.\<close>

definition unknownParametersText :: "string list \<Rightarrow> string" where
  "unknownParametersText names =
     ''stack has no parameters with these names: '' @ Join names '', ''"

definition resourceUpdateFailedText :: "string \<Rightarrow> string \<Rightarrow> string" where
  "resourceUpdateFailedText status reason = status @ '': '' @ reason"

definition rolledBackText :: "string \<Rightarrow> string" where
  "rolledBackText status = status @ '', see AWS CloudFormation Console for more details''"

section \<open>The environment of a run\<close>

text \<open>
  Everything a run reads from outside: the process environment, the answers of the
  backing system, the random bytes of the token, the clock, and what each iteration of
  the polling loop receives: the context's end, or a tick with the pages the events
  paginator returns. The list of ticks is the finite part of the future that has been
  observed; a run that is still waiting after it has not returned.
\<close>

datatype page = Page "StackEvent list" | PageError sdk_error

datatype tick = Tick "page list" | Done ctx_error

record env =
  underGithub :: bool
  INPUT_PARAMETERS :: string
  LoadDefaultConfig :: "sdk_error option"
  DescribeStacks :: "string \<Rightarrow> sdk_error + Stack list"
  UpdateStack :: "UpdateStackInput \<Rightarrow> sdk_error option"
  randRead :: "char list"
  Now :: int
  ticks :: "tick list"

text \<open>The calls a run makes, in order.\<close>

datatype call =
  CallLoadDefaultConfig
| CallDescribeStacks string
| CallUpdateStack UpdateStackInput
| CallDescribeStackEvents string

text \<open>What a run has done after the observed ticks: returned (nil or an error), or it is
  still polling.\<close>

datatype outcome = Return "error option" | KeepPolling

definition newToken :: "char list \<Rightarrow> string" where
  "newToken b = ''ucs-'' @ EncodeToString b"

section \<open>The key=value parser (parseKvs)\<close>

fun parseKvs_loop :: "string list \<Rightarrow> (string, string) fmap \<Rightarrow> error + (string, string) fmap" where
  "parseKvs_loop [] out = Inr out"
| "parseKvs_loop (line0 # list) out =
     (let line = TrimSpace line0 in
      if line = [] then parseKvs_loop list out
      else (case Cut line of (k0, v0, ok) \<Rightarrow>
        if \<not> ok then Inl (WrongFormat line)
        else (let k = TrimSpace k0; v = TrimSpace v0 in
          if k = [] \<or> v = [] then Inl (EmptyKeyOrValue line)
          else if fmlookup out k \<noteq> None then Inl (DuplicateKey k)
          else parseKvs_loop list (fmupd k v out))))"

definition parseKvs :: "string list \<Rightarrow> error + (string, string) fmap" where
  "parseKvs list = parseKvs_loop list fmempty"

section \<open>The polling loop\<close>

text \<open>
  The body of the innermost loop decides for one event: go on to the next event
  (\<open>continue\<close>, or the end of the body), leave both loops of this tick
  (\<open>break scanEvents\<close>), or return from the run.
\<close>

datatype verdict = Next | BreakScan | Returns "error option"

definition stale :: "int \<Rightarrow> StackEvent \<Rightarrow> bool" where
  "stale oldEventsCutoff evt =
     (case Timestamp evt of None \<Rightarrow> False | Some t \<Rightarrow> t < oldEventsCutoff)"

definition foreign :: "string \<Rightarrow> StackEvent \<Rightarrow> bool" where
  "foreign token evt =
     (case ClientRequestToken evt of None \<Rightarrow> True | Some t \<Rightarrow> t \<noteq> token)"

definition isStack :: "string \<Rightarrow> StackEvent \<Rightarrow> bool" where
  "isStack stackName evt \<longleftrightarrow>
     ToString (LogicalResourceId evt) = stackName \<and>
     ToString (ResourceType evt) = ''AWS::CloudFormation::Stack''"

text \<open>The loop body of the multi-parameter program.\<close>

definition scanEvent_multi :: "string \<Rightarrow> string \<Rightarrow> int \<Rightarrow> StackEvent \<Rightarrow> verdict" where
  "scanEvent_multi stackName token oldEventsCutoff evt =
     (if stale oldEventsCutoff evt then BreakScan
      else if foreign token evt then Next
      else if ResourceStatus evt = ResourceStatusUpdateFailed \<and>
              ToString (ResourceStatusReason evt) \<noteq> ''Resource update cancelled''
        then Returns (Some (ResourceUpdateFailed (ResourceStatus evt)
                              (ToString (ResourceStatusReason evt))))
      else if isStack stackName evt then
        (if ResourceStatus evt = ResourceStatusUpdateRollbackComplete \<or>
            ResourceStatus evt = ResourceStatusRollbackFailed
           then Returns (Some (RolledBack (ResourceStatus evt)))
         else if ResourceStatus evt = ResourceStatusUpdateComplete then Returns None
         else Next)
      else Next)"

text \<open>The loop body of the single-parameter program (src/main.go).\<close>

definition scanEvent_single :: "string \<Rightarrow> string \<Rightarrow> int \<Rightarrow> StackEvent \<Rightarrow> verdict" where
  "scanEvent_single stackName token oldEventsCutoff evt =
     (if stale oldEventsCutoff evt then BreakScan
      else if foreign token evt then Next
      else if ResourceStatus evt = ResourceStatusUpdateFailed
        then Returns (Some (ResourceUpdateFailed (ResourceStatus evt)
                              (ToString (ResourceStatusReason evt))))
      else if isStack stackName evt then
        (if ResourceStatus evt = ResourceStatusUpdateComplete then Returns None else Next)
      else Next)"

text \<open>The loop over the events of one page.\<close>

fun scanPage :: "(StackEvent \<Rightarrow> verdict) \<Rightarrow> StackEvent list \<Rightarrow> verdict" where
  "scanPage body [] = Next"
| "scanPage body (evt # evts) =
     (case body evt of Next \<Rightarrow> scanPage body evts | v \<Rightarrow> v)"

text \<open>The loop over the pages of one tick, with the page requests it makes. A page that
  fails to load returns its error from the run.\<close>

fun scanPages :: "(StackEvent \<Rightarrow> verdict) \<Rightarrow> string \<Rightarrow> page list \<Rightarrow> call list \<times> verdict" where
  "scanPages body stackName [] = ([], Next)"
| "scanPages body stackName (PageError e # ps) =
     ([CallDescribeStackEvents stackName], Returns (Some (SDK e)))"
| "scanPages body stackName (Page evts # ps) =
     (case scanPage body evts of
        Next \<Rightarrow> (case scanPages body stackName ps of
                   (cs, v) \<Rightarrow> (CallDescribeStackEvents stackName # cs, v))
      | v \<Rightarrow> ([CallDescribeStackEvents stackName], v))"

text \<open>The outer \<open>for\<close> loop: wait for the ticker or the context, then scan.\<close>

fun poll :: "(StackEvent \<Rightarrow> verdict) \<Rightarrow> string \<Rightarrow> tick list \<Rightarrow> call list \<times> outcome" where
  "poll body stackName [] = ([], KeepPolling)"
| "poll body stackName (Done e # ts) = ([], Return (Some (ContextDone e)))"
| "poll body stackName (Tick ps # ts) =
     (case scanPages body stackName ps of
        (cs, Returns r) \<Rightarrow> (cs, Return r)
      | (cs, _) \<Rightarrow> (case poll body stackName ts of (cs', out) \<Rightarrow> (cs @ cs', out)))"

definition monitor_multi :: "string \<Rightarrow> string \<Rightarrow> int \<Rightarrow> tick list \<Rightarrow> call list \<times> outcome" where
  "monitor_multi stackName token now ts =
     poll (scanEvent_multi stackName token (now - Hour)) stackName ts"

definition monitor_single :: "string \<Rightarrow> string \<Rightarrow> int \<Rightarrow> tick list \<Rightarrow> call list \<times> outcome" where
  "monitor_single stackName token now ts =
     poll (scanEvent_single stackName token (now - Hour)) stackName ts"

section \<open>Reconciling the parameters\<close>

definition usePrevious :: "string \<Rightarrow> Parameter" where
  "usePrevious k =
     \<lparr>ParameterKey = Some k, ParameterValue = None, UsePreviousValue = Some True\<rparr>"

definition explicit :: "string \<Rightarrow> string \<Rightarrow> Parameter" where
  "explicit k v =
     \<lparr>ParameterKey = Some k, ParameterValue = Some v, UsePreviousValue = None\<rparr>"

text \<open>The multi-parameter program: the loop over the stack's parameters, which appends to
  \<open>params\<close> and deletes from \<open>toReplace\<close>, and the check that follows it.\<close>

fun reconcile_multi_loop ::
  "Parameter list \<Rightarrow> Parameter list \<Rightarrow> (string, string) fmap \<Rightarrow>
     Parameter list \<times> (string, string) fmap" where
  "reconcile_multi_loop [] params toReplace = (params, toReplace)"
| "reconcile_multi_loop (p # ps) params toReplace =
     (let k = ToString (ParameterKey p) in
      case fmlookup toReplace k of
        Some v \<Rightarrow> reconcile_multi_loop ps (params @ [explicit k v]) (fmdrop k toReplace)
      | None \<Rightarrow> reconcile_multi_loop ps (params @ [usePrevious k]) toReplace)"

definition reconcile_multi ::
  "Parameter list \<Rightarrow> (string, string) fmap \<Rightarrow> error + Parameter list" where
  "reconcile_multi current toReplace =
     (case reconcile_multi_loop current [] toReplace of
        (params, rest) \<Rightarrow>
          if rest \<noteq> fmempty then Inl (UnknownParameters (sorted_list_of_fset (fmdom rest)))
          else Inr params)"

text \<open>The single-parameter program: the loop with \<open>params\<close> and \<open>seenKey\<close>, and what
  follows it.\<close>

fun reconcile_single_loop ::
  "string \<Rightarrow> string \<Rightarrow> Parameter list \<Rightarrow> Parameter list \<Rightarrow> bool \<Rightarrow>
     error + (Parameter list \<times> bool)" where
  "reconcile_single_loop key val [] params seenKey = Inr (params, seenKey)"
| "reconcile_single_loop key val (p # ps) params seenKey =
     (let k = ToString (ParameterKey p) in
      if k = key \<and> ToString (ParameterValue p) = val then Inl AlreadySet
      else if k = key then reconcile_single_loop key val ps params True
      else reconcile_single_loop key val ps (params @ [usePrevious k]) seenKey)"

definition reconcile_single ::
  "string \<Rightarrow> string \<Rightarrow> Parameter list \<Rightarrow> error + Parameter list" where
  "reconcile_single key val current =
     (case reconcile_single_loop key val current [] False of
        Inl e \<Rightarrow> Inl e
      | Inr (params, seenKey) \<Rightarrow>
          if \<not> seenKey then Inl NoSuchKey else Inr (params @ [explicit key val]))"

section \<open>The two programs\<close>

definition updateInput :: "string \<Rightarrow> string \<Rightarrow> Parameter list \<Rightarrow> Stack \<Rightarrow> UpdateStackInput" where
  "updateInput stackName token params stack =
     \<lparr>in_StackName = stackName, in_ClientRequestToken = token,
      in_UsePreviousTemplate = True, in_Parameters = params,
      in_Capabilities = Capabilities stack,
      in_NotificationARNs = NotificationARNs stack\<rparr>"

text \<open>What follows the reconciliation in both programs: the update call and the polling
  loop, which differs in its body only.\<close>

definition submit ::
  "(string \<Rightarrow> string \<Rightarrow> int \<Rightarrow> tick list \<Rightarrow> call list \<times> outcome) \<Rightarrow>
     env \<Rightarrow> string \<Rightarrow> Parameter list \<Rightarrow> Stack \<Rightarrow> call list \<times> outcome" where
  "submit monitor e stackName params stack =
     (let token = newToken (randRead e);
          input = updateInput stackName token params stack in
      case UpdateStack e input of
        Some err \<Rightarrow> ([CallUpdateStack input], Return (Some (SDK err)))
      | None \<Rightarrow>
          (case monitor stackName token (Now e) (ticks e) of
             (cs, out) \<Rightarrow> (CallUpdateStack input # cs, out)))"

text \<open>The multi-parameter program's \<open>run\<close>. Under GitHub Actions and without
  arguments, the lines of the variable \<open>INPUT_PARAMETERS\<close> take the place of the
  arguments.\<close>

definition inputLines :: "env \<Rightarrow> string list \<Rightarrow> string list" where
  "inputLines e args =
     (if underGithub e \<and> args = [] then Split (CHR 0x0A) (INPUT_PARAMETERS e) else args)"

definition run_multi :: "env \<Rightarrow> string \<Rightarrow> string list \<Rightarrow> call list \<times> outcome" where
  "run_multi e stackName args0 =
     (if stackName = [] then ([], Return (Some StackNameUnset))
      else
        let args = inputLines e args0 in
        case parseKvs args of
          Inl err \<Rightarrow> ([], Return (Some err))
        | Inr toReplace \<Rightarrow>
            if toReplace = fmempty then ([], Return (Some EmptyParametersList))
            else (case LoadDefaultConfig e of
              Some err \<Rightarrow> ([CallLoadDefaultConfig], Return (Some (SDK err)))
            | None \<Rightarrow>
                (case DescribeStacks e stackName of
                   Inl err \<Rightarrow>
                     ([CallLoadDefaultConfig, CallDescribeStacks stackName],
                      Return (Some (SDK err)))
                 | Inr stacks \<Rightarrow>
                     (case stacks of
                        [stack] \<Rightarrow>
                          (case reconcile_multi (Parameters stack) toReplace of
                             Inl err \<Rightarrow>
                               ([CallLoadDefaultConfig, CallDescribeStacks stackName],
                                Return (Some err))
                           | Inr params \<Rightarrow>
                               (case submit monitor_multi e stackName params stack of
                                  (cs, out) \<Rightarrow>
                                    (CallLoadDefaultConfig # CallDescribeStacks stackName # cs,
                                     out)))
                      | _ \<Rightarrow>
                          ([CallLoadDefaultConfig, CallDescribeStacks stackName],
                           Return (Some (StacksCount (length stacks))))))))"

text \<open>The single-parameter program's \<open>runArgs\<close>, \<open>validate\<close> and \<open>run\<close>.\<close>

record runArgs =
  stack :: string
  key :: string
  val :: string

definition validate :: "runArgs \<Rightarrow> error option" where
  "validate a =
     (if stack a = [] \<or> key a = [] \<or> val a = [] then Some ArgsEmpty else None)"

definition run_single :: "env \<Rightarrow> runArgs \<Rightarrow> call list \<times> outcome" where
  "run_single e args =
     (case validate args of
        Some err \<Rightarrow> ([], Return (Some err))
      | None \<Rightarrow>
          (case LoadDefaultConfig e of
             Some err \<Rightarrow> ([CallLoadDefaultConfig], Return (Some (SDK err)))
           | None \<Rightarrow>
               (case DescribeStacks e (stack args) of
                  Inl err \<Rightarrow>
                    ([CallLoadDefaultConfig, CallDescribeStacks (stack args)],
                     Return (Some (SDK err)))
                | Inr stacks \<Rightarrow>
                    (case stacks of
                       [st] \<Rightarrow>
                         (case reconcile_single (key args) (val args) (Parameters st) of
                            Inl err \<Rightarrow>
                              ([CallLoadDefaultConfig, CallDescribeStacks (stack args)],
                               Return (Some err))
                          | Inr params \<Rightarrow>
                              (case submit monitor_single e (stack args) params st of
                                 (cs, out) \<Rightarrow>
                                   (CallLoadDefaultConfig # CallDescribeStacks (stack args) # cs,
                                    out)))
                     | _ \<Rightarrow>
                         ([CallLoadDefaultConfig, CallDescribeStacks (stack args)],
                          Return (Some (StacksCount (length stacks))))))))"

section \<open>The two main functions\<close>

text \<open>
  What \<open>main\<close> prints itself and how the process ends: \<open>log.Print\<close> of a text behind
  the warning prefix followed by a plain return (exit status 0), or \<open>log.Fatal\<close> of the
  error behind the error prefix (exit status 1).
\<close>

datatype printed = Warning string string | Fatal string error

datatype exit = Exit nat "printed option"

definition githubWarnPrefix :: "env \<Rightarrow> string" where
  "githubWarnPrefix e = (if underGithub e then ''::warning::'' else [])"

definition githubErrPrefix :: "env \<Rightarrow> string" where
  "githubErrPrefix e = (if underGithub e then ''::error::'' else [])"

definition nothingToUpdate :: "error \<Rightarrow> bool" where
  "nothingToUpdate err =
     (case err of
        SDK (APIError code msg) \<Rightarrow>
          code = ''ValidationError'' \<and> msg = ''No updates are to be performed.''
      | _ \<Rightarrow> False)"

definition errAlreadySetText :: string where
  "errAlreadySetText = ''stack already has required parameter value''"

definition report_multi :: "env \<Rightarrow> error option \<Rightarrow> exit" where
  "report_multi e r =
     (case r of
        None \<Rightarrow> Exit 0 None
      | Some err \<Rightarrow>
          if nothingToUpdate err
          then Exit 0 (Some (Warning (githubWarnPrefix e) ''nothing to update''))
          else Exit 1 (Some (Fatal (githubErrPrefix e) err)))"

definition report_single :: "env \<Rightarrow> error option \<Rightarrow> exit" where
  "report_single e r =
     (case r of
        None \<Rightarrow> Exit 0 None
      | Some err \<Rightarrow>
          if err = AlreadySet
          then Exit 0 (Some (Warning (githubWarnPrefix e) errAlreadySetText))
          else if nothingToUpdate err
          then Exit 0 (Some (Warning (githubWarnPrefix e) ''nothing to update''))
          else Exit 1 (Some (Fatal (githubErrPrefix e) err)))"

text \<open>\<open>main\<close> ends when \<open>run\<close> returns; while \<open>run\<close> is polling there is no exit.\<close>

definition main_multi :: "env \<Rightarrow> string \<Rightarrow> string list \<Rightarrow> call list \<times> exit option" where
  "main_multi e stackName args =
     (case run_multi e stackName args of
        (cs, Return r) \<Rightarrow> (cs, Some (report_multi e r))
      | (cs, KeepPolling) \<Rightarrow> (cs, None))"

definition main_single :: "env \<Rightarrow> runArgs \<Rightarrow> call list \<times> exit option" where
  "main_single e args =
     (case run_single e args of
        (cs, Return r) \<Rightarrow> (cs, Some (report_single e r))
      | (cs, KeepPolling) \<Rightarrow> (cs, None))"


section \<open>Notions used in the statements\<close>

text \<open>The events of an observed future, in scan order.\<close>

fun page_events :: "page \<Rightarrow> StackEvent list" where
  "page_events (Page evts) = evts"
| "page_events (PageError e) = []"

fun tick_events :: "tick \<Rightarrow> StackEvent list" where
  "tick_events (Tick ps) = concat (map page_events ps)"
| "tick_events (Done e) = []"

definition events :: "tick list \<Rightarrow> StackEvent list" where
  "events ts = concat (map tick_events ts)"

text \<open>
  The scan reaches the event that comes after the ticks \<open>pre\<close>, the pages \<open>ps\<close> of its
  own tick and the events \<open>xs\<close> of its own page: none of the earlier ticks ends the run,
  and the earlier pages and events of the tick are passed without a break or a return.
  \<open>callsBefore\<close> is the list of calls made up to the request of the event's page.
\<close>

definition reaches ::
  "(StackEvent \<Rightarrow> verdict) \<Rightarrow> string \<Rightarrow> tick list \<Rightarrow> page list \<Rightarrow> StackEvent list \<Rightarrow> bool" where
  "reaches body n pre ps xs \<longleftrightarrow>
     snd (poll body n pre) = KeepPolling \<and> snd (scanPages body n ps) = Next \<and>
     scanPage body xs = Next"

definition callsBefore ::
  "(StackEvent \<Rightarrow> verdict) \<Rightarrow> string \<Rightarrow> tick list \<Rightarrow> page list \<Rightarrow> call list" where
  "callsBefore body n pre ps =
     fst (poll body n pre) @ fst (scanPages body n ps) @ [CallDescribeStackEvents n]"

text \<open>
  What is left of an observed future when every event is removed that is not older than
  the cutoff and does not carry the run's token.
\<close>

fun page_filter :: "(StackEvent \<Rightarrow> bool) \<Rightarrow> page \<Rightarrow> page" where
  "page_filter P (Page evts) = Page (filter P evts)"
| "page_filter P (PageError e) = PageError e"

fun tick_filter :: "(StackEvent \<Rightarrow> bool) \<Rightarrow> tick \<Rightarrow> tick" where
  "tick_filter P (Tick ps) = Tick (map (page_filter P) ps)"
| "tick_filter P (Done e) = Done e"

definition observed :: "string \<Rightarrow> int \<Rightarrow> tick list \<Rightarrow> tick list" where
  "observed token now ts =
     map (tick_filter (\<lambda>evt. stale (now - Hour) evt \<or> \<not> foreign token evt)) ts"

text \<open>
  What the parser's loop body makes of one line: it skips a blank line, rejects a
  malformed one, and takes a key and a value from a well-formed one. \<open>lineKeys\<close> are the
  keys of the well-formed lines, in order.
\<close>

datatype line_kind = Blank | Malformed error | Pair string string

definition lineKind :: "string \<Rightarrow> line_kind" where
  "lineKind line0 =
     (let line = TrimSpace line0 in
      if line = [] then Blank
      else (case Cut line of (k0, v0, ok) \<Rightarrow>
        if \<not> ok then Malformed (WrongFormat line)
        else (let k = TrimSpace k0; v = TrimSpace v0 in
          if k = [] \<or> v = [] then Malformed (EmptyKeyOrValue line) else Pair k v)))"

fun lineKeys :: "string list \<Rightarrow> string list" where
  "lineKeys [] = []"
| "lineKeys (l # ls) =
     (case lineKind l of Pair k v \<Rightarrow> k # lineKeys ls | _ \<Rightarrow> lineKeys ls)"

text \<open>The keys of a parameter list, in order.\<close>

definition keysOf :: "Parameter list \<Rightarrow> string list" where
  "keysOf ps = map (\<lambda>p. ToString (ParameterKey p)) ps"

text \<open>The override keys that no parameter of the stack has, in ascending order.\<close>

definition unmatched :: "Parameter list \<Rightarrow> (string, string) fmap \<Rightarrow> string list" where
  "unmatched cur ov = sorted_list_of_fset (fmdom (fmdrop_set (set (keysOf cur)) ov))"

section \<open>Example data\<close>

definition exEvent ::
  "int \<Rightarrow> string \<Rightarrow> string \<Rightarrow> string option \<Rightarrow> string \<Rightarrow> string \<Rightarrow> StackEvent" where
  "exEvent ts tok status reason typ lid =
     \<lparr>Timestamp = Some ts, ClientRequestToken = Some tok, ResourceStatus = status,
      ResourceStatusReason = reason, ResourceType = Some typ, LogicalResourceId = Some lid\<rparr>"

text \<open>The stack \<open>web\<close> is updated by the run with token \<open>ucs-aa\<close>, which starts to poll
  at the instant \<open>2 * Hour\<close>; \<open>ucs-bb\<close> is the token of another run.\<close>

definition ev_complete :: StackEvent where
  "ev_complete =
     exEvent (2 * Hour) ''ucs-aa'' ''UPDATE_COMPLETE'' None ''AWS::CloudFormation::Stack'' ''web''"

definition ev_foreign :: StackEvent where
  "ev_foreign =
     exEvent (2 * Hour) ''ucs-bb'' ''UPDATE_ROLLBACK_COMPLETE'' None
       ''AWS::CloudFormation::Stack'' ''web''"

definition ev_old_foreign :: StackEvent where
  "ev_old_foreign =
     exEvent 0 ''ucs-bb'' ''UPDATE_COMPLETE'' None ''AWS::CloudFormation::Stack'' ''web''"

text \<open>Two completion events of the run for a monitor that starts at the instant
  7200000000000: one a nanosecond older than the cutoff, one at the cutoff.\<close>

definition ev_just_stale :: StackEvent where
  "ev_just_stale =
     exEvent 3599999999999 ''ucs-aa'' ''UPDATE_COMPLETE'' None ''AWS::CloudFormation::Stack''
       ''web''"

definition ev_at_cutoff :: StackEvent where
  "ev_at_cutoff =
     exEvent 3600000000000 ''ucs-aa'' ''UPDATE_COMPLETE'' None ''AWS::CloudFormation::Stack''
       ''web''"

definition ev_rolled_back :: StackEvent where
  "ev_rolled_back =
     exEvent (2 * Hour) ''ucs-aa'' ''UPDATE_ROLLBACK_COMPLETE'' None
       ''AWS::CloudFormation::Stack'' ''web''"

definition ev_cancelled :: StackEvent where
  "ev_cancelled =
     exEvent (2 * Hour) ''ucs-aa'' ''UPDATE_FAILED'' (Some ''Resource update cancelled'')
       ''AWS::ECS::Service'' ''Worker''"

definition ev_failed :: StackEvent where
  "ev_failed =
     exEvent (2 * Hour) ''ucs-aa'' ''UPDATE_FAILED'' (Some ''Image not found'')
       ''AWS::ECS::Service'' ''Api''"

text \<open>The stack \<open>web\<close> has the parameters \<open>Env=prod\<close> and \<open>ImageTag=v1\<close>.\<close>

definition ex_stack :: Stack where
  "ex_stack =
     \<lparr>Parameters =
        [\<lparr>ParameterKey = Some ''Env'', ParameterValue = Some ''prod'', UsePreviousValue = None\<rparr>,
         \<lparr>ParameterKey = Some ''ImageTag'', ParameterValue = Some ''v1'',
          UsePreviousValue = None\<rparr>],
      Capabilities = [''CAPABILITY_IAM''], NotificationARNs = []\<rparr>"

definition ex_env :: "string \<Rightarrow> sdk_error option \<Rightarrow> env" where
  "ex_env input updateAnswer =
     \<lparr>underGithub = True, INPUT_PARAMETERS = input, LoadDefaultConfig = None,
      DescribeStacks = (\<lambda>n. if n = ''web'' then Inr [ex_stack]
                             else Inl (APIError ''ValidationError'' ''Stack does not exist'')),
      UpdateStack = (\<lambda>i. updateAnswer), randRead = replicate 20 (CHR 0xAA),
      Now = 2 * Hour, ticks = []\<rparr>"

definition exParameter :: "string \<Rightarrow> string \<Rightarrow> Parameter" where
  "exParameter k v = \<lparr>ParameterKey = Some k, ParameterValue = Some v, UsePreviousValue = None\<rparr>"

text \<open>Answers of the update call, the arguments of a single-parameter run, and the
  update request both programs make for \<open>ImageTag=v2\<close>.\<close>

definition ex_noUpdates :: sdk_error where
  "ex_noUpdates = APIError ''ValidationError'' ''No updates are to be performed.''"

definition ex_inProgress :: sdk_error where
  "ex_inProgress = APIError ''ValidationError'' ''Stack is in UPDATE_IN_PROGRESS state''"

definition ex_args :: runArgs where
  "ex_args = \<lparr>stack = ''web'', key = ''ImageTag'', val = ''v2''\<rparr>"

definition ex_input :: UpdateStackInput where
  "ex_input =
     updateInput ''web'' (newToken (replicate 20 (CHR 0xAA)))
       [usePrevious ''Env'', explicit ''ImageTag'' ''v2''] ex_stack"

text \<open>After the update call for \<open>ImageTag=v2\<close>, each of three ticks finds one page with
  one event: the stack itself, with the token of the run, has been rolled back.\<close>

definition ev_own_rolled_back :: StackEvent where
  "ev_own_rolled_back =
     exEvent (2 * Hour) (newToken (replicate 20 (CHR 0xAA))) ''UPDATE_ROLLBACK_COMPLETE'' None
       ''AWS::CloudFormation::Stack'' ''web''"

definition ex_rollback_env :: env where
  "ex_rollback_env =
     (ex_env ''ImageTag=v2'' None)
       \<lparr>ticks := [Tick [Page [ev_own_rolled_back]], Tick [Page [ev_own_rolled_back]],
                  Tick [Page [ev_own_rolled_back]]]\<rparr>"

section \<open>The loops of the monitor\<close>

lemma scanPage_append:
  "scanPage body (xs @ ys) = (case scanPage body xs of Next \<Rightarrow> scanPage body ys | v \<Rightarrow> v)"
  by (induction xs) (simp_all split: verdict.splits)

lemma scanPages_append:
  "scanPages body n (ps @ qs) =
     (case scanPages body n ps of
        (cs, Next) \<Rightarrow> (case scanPages body n qs of (cs', v) \<Rightarrow> (cs @ cs', v))
      | r \<Rightarrow> r)"
proof (induction ps)
  case Nil
  show ?case by simp
next
  case (Cons p ps)
  show ?case
  proof (cases p)
    case (PageError e)
    then show ?thesis by simp
  next
    case (Page evts)
    then show ?thesis using Cons.IH
      by (simp split: verdict.splits prod.splits)
  qed
qed

lemma poll_append:
  "poll body n (ts @ us) =
     (case poll body n ts of
        (cs, KeepPolling) \<Rightarrow> (case poll body n us of (cs', out) \<Rightarrow> (cs @ cs', out))
      | r \<Rightarrow> r)"
proof (induction ts)
  case Nil
  show ?case by simp
next
  case (Cons t ts)
  show ?case
  proof (cases t)
    case (Done e)
    then show ?thesis by simp
  next
    case (Tick ps)
    then show ?thesis using Cons.IH
      by (simp split: verdict.splits prod.splits outcome.splits)
  qed
qed

text \<open>An event that the scan reaches decides how the run goes on.\<close>

lemma poll_reach:
  assumes "reaches body n pre ps xs"
  shows "poll body n (pre @ Tick (ps @ Page (xs @ e # ys) # qs) # post) =
     (case body e of
        Returns r \<Rightarrow> (callsBefore body n pre ps, Return r)
      | BreakScan \<Rightarrow>
          (case poll body n post of (cs, out) \<Rightarrow> (callsBefore body n pre ps @ cs, out))
      | Next \<Rightarrow> poll body n (pre @ Tick (ps @ Page (xs @ ys) # qs) # post))"
proof -
  obtain cs0 where c0: "poll body n pre = (cs0, KeepPolling)"
    using assms by (cases "poll body n pre") (simp add: reaches_def)
  obtain cs1 where c1: "scanPages body n ps = (cs1, Next)"
    using assms by (cases "scanPages body n ps") (simp add: reaches_def)
  have c2: "scanPage body xs = Next"
    using assms by (simp add: reaches_def)
  show ?thesis
    by (simp add: poll_append [of body n pre] scanPages_append [of body n ps]
        scanPage_append [of body xs] c0 c1 c2 callsBefore_def
        split: verdict.splits prod.splits)
qed

text \<open>A break at an event ends the tick as the end of the events before it would.\<close>

lemma poll_break:
  assumes "body e = BreakScan"
  shows "poll body n (pre @ Tick (ps @ Page (xs @ e # ys) # qs) # post) =
         poll body n (pre @ Tick (ps @ [Page xs]) # post)"
  using assms
  by (simp add: poll_append [of body n pre] scanPages_append [of body n ps]
      scanPage_append [of body xs] split: verdict.splits prod.splits)

text \<open>
  The scan of a page is decided by its first event that the body does not pass over.
  Pages that load are scanned as one sequence of events, with one request for each page,
  and a break at an event ends the tick.
\<close>

lemma scanPage_find:
  "scanPage body evts =
     (case find (\<lambda>x. body x \<noteq> Next) evts of None \<Rightarrow> Next | Some x \<Rightarrow> body x)"
  by (induction evts) (auto split: verdict.splits)

lemma scanPage_all_Next:
  "\<forall>x \<in> set evts. body x = Next \<Longrightarrow> scanPage body evts = Next"
  by (induction evts) simp_all

lemma scanPages_loaded_snd:
  "snd (scanPages body n (map Page pss @ qs)) =
     (case scanPage body (concat pss) of Next \<Rightarrow> snd (scanPages body n qs) | v \<Rightarrow> v)"
proof (induction pss)
  case Nil
  show ?case by simp
next
  case (Cons evts pss)
  show ?case
  proof (cases "scanPage body evts")
    case Next
    then show ?thesis using Cons.IH
      by (simp add: scanPage_append case_prod_unfold)
  next
    case BreakScan
    then show ?thesis by (simp add: scanPage_append)
  next
    case (Returns r)
    then show ?thesis by (simp add: scanPage_append)
  qed
qed

lemma scanPages_loaded_fst:
  "scanPage body (concat pss) = Next \<Longrightarrow>
   fst (scanPages body n (map Page pss @ qs)) =
     replicate (length pss) (CallDescribeStackEvents n) @ fst (scanPages body n qs)"
proof (induction pss)
  case Nil
  show ?case by simp
next
  case (Cons evts pss)
  have "scanPage body evts = Next" "scanPage body (concat pss) = Next"
    using Cons.prems by (auto simp: scanPage_append split: verdict.splits)
  then show ?case using Cons.IH
    by (simp add: case_prod_unfold)
qed

lemma scanPages_stale:
  assumes "body e = BreakScan"
  shows "snd (scanPages body n (map Page pss @ Page (xs @ e # ys) # qs)) =
     (case find (\<lambda>x. body x \<noteq> Next) (concat pss @ xs) of
        None \<Rightarrow> BreakScan | Some x \<Rightarrow> body x)"
proof -
  have "map Page pss @ Page (xs @ e # ys) # qs = map Page (pss @ [xs @ e # ys]) @ qs"
    by simp
  moreover have "scanPage body (concat (pss @ [xs @ e # ys])) =
      (case scanPage body (concat pss @ xs) of Next \<Rightarrow> BreakScan | v \<Rightarrow> v)"
    using assms by (simp add: scanPage_append split: verdict.splits)
  ultimately have v: "snd (scanPages body n (map Page pss @ Page (xs @ e # ys) # qs)) =
      (case scanPage body (concat pss @ xs) of Next \<Rightarrow> BreakScan | v \<Rightarrow> v)"
    using scanPages_loaded_snd [of body n "pss @ [xs @ e # ys]" qs]
    by (simp split: verdict.splits)
  show ?thesis
  proof (cases "find (\<lambda>x. body x \<noteq> Next) (concat pss @ xs)")
    case None
    then show ?thesis using v by (simp add: scanPage_find)
  next
    case (Some x)
    then have "body x \<noteq> Next" by (auto simp: find_Some_iff)
    then show ?thesis using v Some by (simp add: scanPage_find split: verdict.splits)
  qed
qed

lemma poll_stale_outcome:
  assumes "body e = BreakScan"
  shows "snd (poll body n (Tick (map Page pss @ Page (xs @ e # ys) # qs) # post)) =
     (case find (\<lambda>x. body x \<noteq> Next) (concat pss @ xs) of
        None \<Rightarrow> snd (poll body n post)
      | Some x \<Rightarrow> (case body x of Returns r \<Rightarrow> Return r | _ \<Rightarrow> snd (poll body n post)))"
proof -
  obtain cs v where sp: "scanPages body n (map Page pss @ Page (xs @ e # ys) # qs) = (cs, v)"
    by (cases "scanPages body n (map Page pss @ Page (xs @ e # ys) # qs)")
  have v: "v = (case find (\<lambda>x. body x \<noteq> Next) (concat pss @ xs) of
        None \<Rightarrow> BreakScan | Some x \<Rightarrow> body x)"
    using scanPages_stale [of body e, OF assms, of n pss xs ys qs] sp by simp
  have ne: "find (\<lambda>x. body x \<noteq> Next) (concat pss @ xs) = Some x \<Longrightarrow> body x \<noteq> Next" for x
    by (auto simp: find_Some_iff)
  show ?thesis
    using sp v ne
    by (cases "find (\<lambda>x. body x \<noteq> Next) (concat pss @ xs)")
      (auto split: verdict.splits prod.splits)
qed

lemma poll_stale_calls:
  assumes "body e = BreakScan" and "\<forall>x \<in> set (concat pss @ xs). body x = Next"
  shows "fst (poll body n (Tick (map Page pss @ Page (xs @ e # ys) # qs) # post)) =
     replicate (Suc (length pss)) (CallDescribeStackEvents n) @ fst (poll body n post)"
proof -
  have a: "scanPage body (concat pss) = Next"
    using assms(2) by (intro scanPage_all_Next) auto
  have "scanPage body xs = Next"
    using assms(2) by (intro scanPage_all_Next) auto
  then have b: "scanPage body (xs @ e # ys) = BreakScan"
    using assms(1) by (simp add: scanPage_append)
  have "fst (scanPages body n (map Page pss @ Page (xs @ e # ys) # qs)) =
      replicate (length pss) (CallDescribeStackEvents n) @ [CallDescribeStackEvents n]"
    using scanPages_loaded_fst [OF a, of n "Page (xs @ e # ys) # qs"] b by simp
  moreover have "snd (scanPages body n (map Page pss @ Page (xs @ e # ys) # qs)) = BreakScan"
    using scanPages_loaded_snd [of body n pss "Page (xs @ e # ys) # qs"] a b by simp
  ultimately show ?thesis
    by (cases "scanPages body n (map Page pss @ Page (xs @ e # ys) # qs)")
      (simp add: replicate_append_same split: prod.splits)
qed

text \<open>A run returns from the polling loop because of an event, a page that failed to
  load, or the end of the context.\<close>

lemma scanPage_Returns:
  "scanPage body evts = Returns r \<Longrightarrow> \<exists>e \<in> set evts. body e = Returns r"
  by (induction evts) (auto split: verdict.splits)

lemma scanPages_Returns:
  "scanPages body n ps = (cs, Returns r) \<Longrightarrow>
     (\<exists>e \<in> set (concat (map page_events ps)). body e = Returns r) \<or> (\<exists>x. r = Some (SDK x))"
proof (induction ps arbitrary: cs)
  case Nil
  then show ?case by simp
next
  case (Cons p ps)
  show ?case
  proof (cases p)
    case (PageError e)
    then show ?thesis using Cons.prems by auto
  next
    case (Page evts)
    show ?thesis
    proof (cases "scanPage body evts")
      case Next
      then obtain cs' where "scanPages body n ps = (cs', Returns r)"
        using Cons.prems Page by (auto split: prod.splits)
      then show ?thesis using Cons.IH Page by auto
    next
      case BreakScan
      then show ?thesis using Cons.prems Page by simp
    next
      case (Returns r')
      then have "r' = r" using Cons.prems Page by simp
      then show ?thesis using scanPage_Returns [of body evts r] Returns Page by auto
    qed
  qed
qed

lemma poll_Return:
  "poll body n ts = (cs, Return r) \<Longrightarrow>
     (\<exists>e \<in> set (events ts). body e = Returns r) \<or> (\<exists>x. r = Some (SDK x)) \<or>
     (\<exists>x. r = Some (ContextDone x))"
proof (induction ts arbitrary: cs)
  case Nil
  then show ?case by simp
next
  case (Cons t ts)
  show ?case
  proof (cases t)
    case (Done e)
    then show ?thesis using Cons.prems by auto
  next
    case (Tick ps)
    obtain cs1 v where sp: "scanPages body n ps = (cs1, v)"
      by (cases "scanPages body n ps")
    show ?thesis
    proof (cases "\<exists>r'. v = Returns r'")
      case True
      then have "v = Returns r" using Cons.prems Tick sp by auto
      then show ?thesis using scanPages_Returns [of body n ps cs1 r] sp Tick
        by (auto simp: events_def)
    next
      case False
      then obtain cs' where "poll body n ts = (cs', Return r)"
        using Cons.prems Tick sp by (cases v) (auto split: prod.splits)
      then show ?thesis using Cons.IH Tick by (auto simp: events_def)
    qed
  qed
qed

text \<open>Events that the body passes over can be removed.\<close>

lemma scanPage_filter:
  assumes "\<And>e. \<not> P e \<Longrightarrow> body e = Next"
  shows "scanPage body (filter P evts) = scanPage body evts"
  using assms by (induction evts) (simp_all split: verdict.splits)

lemma scanPages_filter:
  assumes "\<And>e. \<not> P e \<Longrightarrow> body e = Next"
  shows "scanPages body n (map (page_filter P) ps) = scanPages body n ps"
proof (induction ps)
  case Nil
  show ?case by simp
next
  case (Cons p ps)
  show ?case
  proof (cases p)
    case (PageError e)
    then show ?thesis by simp
  next
    case (Page evts)
    then show ?thesis using Cons.IH scanPage_filter [of P body evts] assms
      by (simp split: verdict.splits)
  qed
qed

lemma poll_filter:
  assumes "\<And>e. \<not> P e \<Longrightarrow> body e = Next"
  shows "poll body n (map (tick_filter P) ts) = poll body n ts"
proof (induction ts)
  case Nil
  show ?case by simp
next
  case (Cons t ts)
  show ?case
  proof (cases t)
    case (Done e)
    then show ?thesis by simp
  next
    case (Tick ps)
    then show ?thesis using Cons.IH scanPages_filter [of P body n ps] assms
      by (simp split: verdict.splits prod.splits)
  qed
qed

section \<open>The loop bodies\<close>

lemma stale_multi: "stale c e \<Longrightarrow> scanEvent_multi s t c e = BreakScan"
  by (simp add: scanEvent_multi_def)

lemma stale_single: "stale c e \<Longrightarrow> scanEvent_single s t c e = BreakScan"
  by (simp add: scanEvent_single_def)

lemma foreign_multi:
  "\<not> (stale c e \<or> \<not> foreign t e) \<Longrightarrow> scanEvent_multi s t c e = Next"
  by (simp add: scanEvent_multi_def)

lemma foreign_single:
  "\<not> (stale c e \<or> \<not> foreign t e) \<Longrightarrow> scanEvent_single s t c e = Next"
  by (simp add: scanEvent_single_def)

lemma monitor_multi_observed:
  "monitor_multi s t now (observed t now ts) = monitor_multi s t now ts"
  unfolding monitor_multi_def observed_def
  by (rule poll_filter) (rule foreign_multi)

lemma monitor_single_observed:
  "monitor_single s t now (observed t now ts) = monitor_single s t now ts"
  unfolding monitor_single_def observed_def
  by (rule poll_filter) (rule foreign_single)

section \<open>The staleness cutoff\<close>

text \<open>
  Claim C5. In a tick, an event with a time stamp before the cutoff (the start of the
  monitor minus one hour) ends the scan of the tick, in both programs. The run goes on
  exactly as if the tick had ended after the events that come before the stale one. When
  the pages before the stale event's page have loaded, the events before the stale one
  are all considered, in scan order: the first of them that the loop body does not pass
  over decides the tick, it ends the run when the body returns at it, and otherwise, or
  when the body passes over all of them, the run goes on with the next tick. No event or
  page after the stale event is looked at or requested: when the body passes over all
  events before it, the tick makes exactly one request for each page up to the stale
  event's page.
\<close>

theorem stale_event_truncates_tick:
  assumes "stale (now - Hour) e"
  shows "monitor_multi s t now (pre @ Tick (ps @ Page (xs @ e # ys) # qs) # post) =
           monitor_multi s t now (pre @ Tick (ps @ [Page xs]) # post) \<and>
         monitor_single s t now (pre @ Tick (ps @ Page (xs @ e # ys) # qs) # post) =
           monitor_single s t now (pre @ Tick (ps @ [Page xs]) # post) \<and>
         snd (monitor_multi s t now (Tick (map Page pss @ Page (xs @ e # ys) # qs) # post)) =
           (case find (\<lambda>x. scanEvent_multi s t (now - Hour) x \<noteq> Next) (concat pss @ xs) of
              None \<Rightarrow> snd (monitor_multi s t now post)
            | Some x \<Rightarrow>
                (case scanEvent_multi s t (now - Hour) x of
                   Returns r \<Rightarrow> Return r | _ \<Rightarrow> snd (monitor_multi s t now post))) \<and>
         snd (monitor_single s t now (Tick (map Page pss @ Page (xs @ e # ys) # qs) # post)) =
           (case find (\<lambda>x. scanEvent_single s t (now - Hour) x \<noteq> Next) (concat pss @ xs) of
              None \<Rightarrow> snd (monitor_single s t now post)
            | Some x \<Rightarrow>
                (case scanEvent_single s t (now - Hour) x of
                   Returns r \<Rightarrow> Return r | _ \<Rightarrow> snd (monitor_single s t now post))) \<and>
         ((\<forall>x \<in> set (concat pss @ xs). scanEvent_multi s t (now - Hour) x = Next) \<longrightarrow>
            fst (monitor_multi s t now (Tick (map Page pss @ Page (xs @ e # ys) # qs) # post)) =
              replicate (Suc (length pss)) (CallDescribeStackEvents s) @
              fst (monitor_multi s t now post)) \<and>
         ((\<forall>x \<in> set (concat pss @ xs). scanEvent_single s t (now - Hour) x = Next) \<longrightarrow>
            fst (monitor_single s t now (Tick (map Page pss @ Page (xs @ e # ys) # qs) # post)) =
              replicate (Suc (length pss)) (CallDescribeStackEvents s) @
              fst (monitor_single s t now post))"
proof -
  have m: "scanEvent_multi s t (now - Hour) e = BreakScan"
    using assms by (rule stale_multi)
  have sg: "scanEvent_single s t (now - Hour) e = BreakScan"
    using assms by (rule stale_single)
  show ?thesis
    unfolding monitor_multi_def monitor_single_def
    using poll_break [of "scanEvent_multi s t (now - Hour)" e, OF m]
      poll_break [of "scanEvent_single s t (now - Hour)" e, OF sg]
      poll_stale_outcome [of "scanEvent_multi s t (now - Hour)" e, OF m]
      poll_stale_outcome [of "scanEvent_single s t (now - Hour)" e, OF sg]
      poll_stale_calls [of "scanEvent_multi s t (now - Hour)" e, OF m]
      poll_stale_calls [of "scanEvent_single s t (now - Hour)" e, OF sg]
    by simp
qed

theorem stale_event_truncates_tick_witness:
  "stale (2 * Hour - Hour) ev_old_foreign \<and>
   monitor_multi ''web'' ''ucs-aa'' (2 * Hour)
     [Tick [Page [ev_foreign, ev_cancelled], Page [ev_complete, ev_old_foreign, ev_failed],
            Page [ev_failed]]] =
     ([CallDescribeStackEvents ''web'', CallDescribeStackEvents ''web''], Return None) \<and>
   monitor_single ''web'' ''ucs-aa'' (2 * Hour)
     [Tick [Page [ev_foreign, ev_cancelled], Page [ev_complete, ev_old_foreign, ev_failed],
            Page [ev_failed]]] =
     ([CallDescribeStackEvents ''web''],
      Return (Some (ResourceUpdateFailed ''UPDATE_FAILED'' ''Resource update cancelled''))) \<and>
   monitor_multi ''web'' ''ucs-aa'' (2 * Hour)
     [Tick [Page [ev_foreign, ev_cancelled], Page [ev_foreign, ev_old_foreign, ev_complete],
            Page [ev_complete]],
      Tick [Page [ev_failed]]] =
     ([CallDescribeStackEvents ''web'', CallDescribeStackEvents ''web'',
       CallDescribeStackEvents ''web''],
      Return (Some (ResourceUpdateFailed ''UPDATE_FAILED'' ''Image not found''))) \<and>
   monitor_single ''web'' ''ucs-aa'' (2 * Hour)
     [Tick [Page [ev_foreign], Page [ev_foreign, ev_old_foreign, ev_complete],
            Page [ev_complete]],
      Tick [Page [ev_complete]]] =
     ([CallDescribeStackEvents ''web'', CallDescribeStackEvents ''web'',
       CallDescribeStackEvents ''web''], Return None) \<and>
   stale (7200000000000 - Hour) ev_just_stale \<and>
   \<not> stale (7200000000000 - Hour) ev_at_cutoff \<and>
   monitor_multi ''web'' ''ucs-aa'' 7200000000000 [Tick [Page [ev_just_stale, ev_complete]]] =
     ([CallDescribeStackEvents ''web''], KeepPolling) \<and>
   monitor_single ''web'' ''ucs-aa'' 7200000000000 [Tick [Page [ev_just_stale, ev_complete]]] =
     ([CallDescribeStackEvents ''web''], KeepPolling) \<and>
   monitor_multi ''web'' ''ucs-aa'' 7200000000000 [Tick [Page [ev_at_cutoff]]] =
     ([CallDescribeStackEvents ''web''], Return None) \<and>
   monitor_single ''web'' ''ucs-aa'' 7200000000000 [Tick [Page [ev_at_cutoff]]] =
     ([CallDescribeStackEvents ''web''], Return None)"
proof -
  have h: "stale (2 * Hour - Hour) ev_old_foreign"
    by code_simp
  have v: "scanEvent_multi ''web'' ''ucs-aa'' (2 * Hour - Hour) ev_foreign = Next"
    "scanEvent_multi ''web'' ''ucs-aa'' (2 * Hour - Hour) ev_cancelled = Next"
    "scanEvent_multi ''web'' ''ucs-aa'' (2 * Hour - Hour) ev_complete = Returns None"
    "scanEvent_single ''web'' ''ucs-aa'' (2 * Hour - Hour) ev_foreign = Next"
    "scanEvent_single ''web'' ''ucs-aa'' (2 * Hour - Hour) ev_cancelled =
       Returns (Some (ResourceUpdateFailed ''UPDATE_FAILED'' ''Resource update cancelled''))"
    by code_simp+
  have p: "monitor_multi ''web'' ''ucs-aa'' (2 * Hour) [Tick [Page [ev_failed]]] =
      ([CallDescribeStackEvents ''web''],
       Return (Some (ResourceUpdateFailed ''UPDATE_FAILED'' ''Image not found'')))"
    "monitor_single ''web'' ''ucs-aa'' (2 * Hour) [Tick [Page [ev_complete]]] =
      ([CallDescribeStackEvents ''web''], Return None)"
    "fst (monitor_multi ''web'' ''ucs-aa'' (2 * Hour)
       [Tick [Page [ev_foreign, ev_cancelled], Page [ev_complete, ev_old_foreign, ev_failed],
              Page [ev_failed]]]) =
     [CallDescribeStackEvents ''web'', CallDescribeStackEvents ''web'']"
    "fst (monitor_single ''web'' ''ucs-aa'' (2 * Hour)
       [Tick [Page [ev_foreign, ev_cancelled], Page [ev_complete, ev_old_foreign, ev_failed],
              Page [ev_failed]]]) = [CallDescribeStackEvents ''web'']"
    by code_simp+
  have a: "snd (monitor_multi ''web'' ''ucs-aa'' (2 * Hour)
       [Tick [Page [ev_foreign, ev_cancelled], Page [ev_complete, ev_old_foreign, ev_failed],
              Page [ev_failed]]]) = Return None"
    using stale_event_truncates_tick [OF h, of "''web''" "''ucs-aa''" "[]" "[]" "[ev_complete]"
        "[ev_failed]" "[Page [ev_failed]]" "[]" "[[ev_foreign, ev_cancelled]]"] v
    by simp
  have b: "snd (monitor_single ''web'' ''ucs-aa'' (2 * Hour)
       [Tick [Page [ev_foreign, ev_cancelled], Page [ev_complete, ev_old_foreign, ev_failed],
              Page [ev_failed]]]) =
       Return (Some (ResourceUpdateFailed ''UPDATE_FAILED'' ''Resource update cancelled''))"
    using stale_event_truncates_tick [OF h, of "''web''" "''ucs-aa''" "[]" "[]" "[ev_complete]"
        "[ev_failed]" "[Page [ev_failed]]" "[]" "[[ev_foreign, ev_cancelled]]"] v
    by simp
  have c: "monitor_multi ''web'' ''ucs-aa'' (2 * Hour)
     [Tick [Page [ev_foreign, ev_cancelled], Page [ev_foreign, ev_old_foreign, ev_complete],
            Page [ev_complete]],
      Tick [Page [ev_failed]]] =
     ([CallDescribeStackEvents ''web'', CallDescribeStackEvents ''web'',
       CallDescribeStackEvents ''web''],
      Return (Some (ResourceUpdateFailed ''UPDATE_FAILED'' ''Image not found'')))"
    using stale_event_truncates_tick [OF h, of "''web''" "''ucs-aa''" "[]" "[]" "[ev_foreign]"
        "[ev_complete]" "[Page [ev_complete]]" "[Tick [Page [ev_failed]]]"
        "[[ev_foreign, ev_cancelled]]"] v p(1)
    by (simp add: prod_eq_iff)
  have d: "monitor_single ''web'' ''ucs-aa'' (2 * Hour)
     [Tick [Page [ev_foreign], Page [ev_foreign, ev_old_foreign, ev_complete],
            Page [ev_complete]],
      Tick [Page [ev_complete]]] =
     ([CallDescribeStackEvents ''web'', CallDescribeStackEvents ''web'',
       CallDescribeStackEvents ''web''], Return None)"
    using stale_event_truncates_tick [OF h, of "''web''" "''ucs-aa''" "[]" "[]" "[ev_foreign]"
        "[ev_complete]" "[Page [ev_complete]]" "[Tick [Page [ev_complete]]]"
        "[[ev_foreign]]"] v p(2)
    by (simp add: prod_eq_iff)
  have h2: "stale (7200000000000 - Hour) ev_just_stale"
    by code_simp
  have q: "\<not> stale (7200000000000 - Hour) ev_at_cutoff"
    "monitor_multi ''web'' ''ucs-aa'' 7200000000000 [Tick [Page [ev_at_cutoff]]] =
       ([CallDescribeStackEvents ''web''], Return None)"
    "monitor_single ''web'' ''ucs-aa'' 7200000000000 [Tick [Page [ev_at_cutoff]]] =
       ([CallDescribeStackEvents ''web''], Return None)"
    "monitor_multi ''web'' ''ucs-aa'' 7200000000000 [] = ([], KeepPolling)"
    "monitor_single ''web'' ''ucs-aa'' 7200000000000 [] = ([], KeepPolling)"
    "monitor_multi ''web'' ''ucs-aa'' 7200000000000 [Tick [Page []]] =
       ([CallDescribeStackEvents ''web''], KeepPolling)"
    "monitor_single ''web'' ''ucs-aa'' 7200000000000 [Tick [Page []]] =
       ([CallDescribeStackEvents ''web''], KeepPolling)"
    by code_simp+
  have f: "monitor_multi ''web'' ''ucs-aa'' 7200000000000
       [Tick [Page [ev_just_stale, ev_complete]]] =
       ([CallDescribeStackEvents ''web''], KeepPolling)"
    "monitor_single ''web'' ''ucs-aa'' 7200000000000
       [Tick [Page [ev_just_stale, ev_complete]]] =
       ([CallDescribeStackEvents ''web''], KeepPolling)"
    using stale_event_truncates_tick [OF h2, of "''web''" "''ucs-aa''" "[]" "[]" "[]"
        "[ev_complete]" "[]" "[]" "[]"] q(4) q(5) q(6) q(7)
    by simp_all
  show ?thesis
    using h a b c d p(3) p(4) h2 q(1) q(2) q(3) f by (simp add: prod_eq_iff)
qed

section \<open>The correlation filter\<close>

text \<open>
  Claim C4, as stated, fails: the cutoff is tested before the token, so an event of
  another run that is older than the cutoff ends the scan of the tick and hides the
  completion event of this run that follows it.
\<close>

theorem foreign_event_interferes:
  "snd (monitor_multi ''web'' ''ucs-aa'' (2 * Hour) [Tick [Page [ev_complete]]]) =
     Return None \<and>
   snd (monitor_multi ''web'' ''ucs-aa'' (2 * Hour)
          [Tick [Page [ev_old_foreign, ev_complete]]]) = KeepPolling \<and>
   snd (monitor_single ''web'' ''ucs-aa'' (2 * Hour) [Tick [Page [ev_complete]]]) =
     Return None \<and>
   snd (monitor_single ''web'' ''ucs-aa'' (2 * Hour)
          [Tick [Page [ev_old_foreign, ev_complete]]]) = KeepPolling"
  by code_simp

text \<open>
  Claim C4, amended. Two observed futures that differ only in events which carry no
  token or another run's token and are not older than the cutoff (they become equal when
  those events are removed) make the monitor request the same pages and end in the same
  way, in both programs.
\<close>

theorem fresh_foreign_events_do_not_interfere:
  assumes "observed t now ts = observed t now ts'"
  shows "monitor_multi s t now ts = monitor_multi s t now ts' \<and>
         monitor_single s t now ts = monitor_single s t now ts'"
  using assms monitor_multi_observed [of s t now ts] monitor_multi_observed [of s t now ts']
    monitor_single_observed [of s t now ts] monitor_single_observed [of s t now ts']
  by simp

theorem fresh_foreign_events_do_not_interfere_witness:
  "observed ''ucs-aa'' (2 * Hour) [Tick [Page [ev_foreign, ev_complete]]] =
     observed ''ucs-aa'' (2 * Hour) [Tick [Page [ev_complete]]] \<and>
   monitor_multi ''web'' ''ucs-aa'' (2 * Hour) [Tick [Page [ev_foreign, ev_complete]]] =
     monitor_multi ''web'' ''ucs-aa'' (2 * Hour) [Tick [Page [ev_complete]]] \<and>
   monitor_single ''web'' ''ucs-aa'' (2 * Hour) [Tick [Page [ev_foreign, ev_complete]]] =
     monitor_single ''web'' ''ucs-aa'' (2 * Hour) [Tick [Page [ev_complete]]]"
proof -
  have h: "observed ''ucs-aa'' (2 * Hour) [Tick [Page [ev_foreign, ev_complete]]] =
     observed ''ucs-aa'' (2 * Hour) [Tick [Page [ev_complete]]]"
    by code_simp
  show ?thesis
    using h fresh_foreign_events_do_not_interfere [OF h, of "''web''"] by simp
qed


section \<open>What the loop bodies return\<close>

lemmas status_defs =
  ResourceStatusUpdateComplete_def ResourceStatusUpdateFailed_def
  ResourceStatusUpdateRollbackComplete_def ResourceStatusRollbackFailed_def

lemma multi_Returns_None:
  "scanEvent_multi s t c e = Returns None \<longleftrightarrow>
     \<not> stale c e \<and> \<not> foreign t e \<and> isStack s e \<and>
     ResourceStatus e = ResourceStatusUpdateComplete"
  by (auto simp: scanEvent_multi_def status_defs)

lemma multi_Returns_RolledBack:
  "scanEvent_multi s t c e = Returns (Some (RolledBack st)) \<longleftrightarrow>
     \<not> stale c e \<and> \<not> foreign t e \<and> isStack s e \<and> ResourceStatus e = st \<and>
     (st = ResourceStatusUpdateRollbackComplete \<or> st = ResourceStatusRollbackFailed)"
  by (auto simp: scanEvent_multi_def status_defs)

lemma single_Returns_None:
  "scanEvent_single s t c e = Returns None \<longleftrightarrow>
     \<not> stale c e \<and> \<not> foreign t e \<and> isStack s e \<and>
     ResourceStatus e = ResourceStatusUpdateComplete"
  by (auto simp: scanEvent_single_def status_defs)

lemma single_Returns_RolledBack:
  "scanEvent_single s t c e \<noteq> Returns (Some (RolledBack st))"
  by (simp add: scanEvent_single_def)

lemma multi_UpdateFailed:
  assumes "\<not> stale c e" "\<not> foreign t e" "ResourceStatus e = ResourceStatusUpdateFailed"
  shows "scanEvent_multi s t c e =
     (if ToString (ResourceStatusReason e) = ''Resource update cancelled'' then Next
      else Returns (Some (ResourceUpdateFailed (ResourceStatus e)
                            (ToString (ResourceStatusReason e)))))"
  using assms by (simp add: scanEvent_multi_def status_defs)

lemma single_UpdateFailed:
  assumes "\<not> stale c e" "\<not> foreign t e" "ResourceStatus e = ResourceStatusUpdateFailed"
  shows "scanEvent_single s t c e =
     Returns (Some (ResourceUpdateFailed (ResourceStatus e)
                      (ToString (ResourceStatusReason e))))"
  using assms by (simp add: scanEvent_single_def)

lemma reaches_append:
  "reaches body n pre ps xs \<Longrightarrow> scanPage body ys = Next \<Longrightarrow> reaches body n pre ps (xs @ ys)"
  by (simp add: reaches_def scanPage_append)

lemma multi_complete:
  assumes "reaches (scanEvent_multi s t (now - Hour)) s pre ps xs"
    and "\<not> stale (now - Hour) e" "\<not> foreign t e" "isStack s e"
    and "ResourceStatus e = ResourceStatusUpdateComplete"
  shows "monitor_multi s t now (pre @ Tick (ps @ Page (xs @ e # ys) # qs) # post) =
     (callsBefore (scanEvent_multi s t (now - Hour)) s pre ps, Return None)"
proof -
  have "scanEvent_multi s t (now - Hour) e = Returns None"
    using assms(2-5) by (simp add: multi_Returns_None)
  then show ?thesis
    unfolding monitor_multi_def by (simp add: poll_reach [OF assms(1)])
qed

lemma multi_rolled_back:
  assumes "reaches (scanEvent_multi s t (now - Hour)) s pre ps xs"
    and "\<not> stale (now - Hour) e" "\<not> foreign t e" "isStack s e"
    and "ResourceStatus e = ResourceStatusUpdateRollbackComplete \<or>
         ResourceStatus e = ResourceStatusRollbackFailed"
  shows "monitor_multi s t now (pre @ Tick (ps @ Page (xs @ e # ys) # qs) # post) =
     (callsBefore (scanEvent_multi s t (now - Hour)) s pre ps,
      Return (Some (RolledBack (ResourceStatus e))))"
proof -
  have "scanEvent_multi s t (now - Hour) e = Returns (Some (RolledBack (ResourceStatus e)))"
    using assms(2-5) by (simp add: multi_Returns_RolledBack)
  then show ?thesis
    unfolding monitor_multi_def by (simp add: poll_reach [OF assms(1)])
qed

lemma multi_success_only:
  assumes "monitor_multi s t now ts = (cs, Return None)"
  shows "\<exists>e \<in> set (events ts). \<not> stale (now - Hour) e \<and> \<not> foreign t e \<and> isStack s e \<and>
           ResourceStatus e = ResourceStatusUpdateComplete"
  using poll_Return [of "scanEvent_multi s t (now - Hour)" s ts cs None] assms
  by (simp add: monitor_multi_def multi_Returns_None)

lemma multi_rollback_only:
  assumes "monitor_multi s t now ts = (cs, Return (Some (RolledBack st)))"
  shows "\<exists>e \<in> set (events ts). \<not> stale (now - Hour) e \<and> \<not> foreign t e \<and> isStack s e \<and>
           ResourceStatus e = st \<and>
           (st = ResourceStatusUpdateRollbackComplete \<or> st = ResourceStatusRollbackFailed)"
  using poll_Return [of "scanEvent_multi s t (now - Hour)" s ts cs "Some (RolledBack st)"] assms
  by (simp add: monitor_multi_def multi_Returns_RolledBack)

lemma single_complete:
  assumes "reaches (scanEvent_single s t (now - Hour)) s pre ps xs"
    and "\<not> stale (now - Hour) e" "\<not> foreign t e" "isStack s e"
    and "ResourceStatus e = ResourceStatusUpdateComplete"
  shows "monitor_single s t now (pre @ Tick (ps @ Page (xs @ e # ys) # qs) # post) =
     (callsBefore (scanEvent_single s t (now - Hour)) s pre ps, Return None)"
proof -
  have "scanEvent_single s t (now - Hour) e = Returns None"
    using assms(2-5) by (simp add: single_Returns_None)
  then show ?thesis
    unfolding monitor_single_def by (simp add: poll_reach [OF assms(1)])
qed

lemma single_success_only:
  assumes "monitor_single s t now ts = (cs, Return None)"
  shows "\<exists>e \<in> set (events ts). \<not> stale (now - Hour) e \<and> \<not> foreign t e \<and> isStack s e \<and>
           ResourceStatus e = ResourceStatusUpdateComplete"
  using poll_Return [of "scanEvent_single s t (now - Hour)" s ts cs None] assms
  by (simp add: monitor_single_def single_Returns_None)

lemma single_no_rollback:
  "monitor_single s t now ts \<noteq> (cs, Return (Some (RolledBack st)))"
  using poll_Return [of "scanEvent_single s t (now - Hour)" s ts cs "Some (RolledBack st)"]
  by (auto simp: monitor_single_def single_Returns_RolledBack)

lemma multi_failed:
  assumes "reaches (scanEvent_multi s t (now - Hour)) s pre ps xs"
    and "\<not> stale (now - Hour) e" "\<not> foreign t e"
    and "ResourceStatus e = ResourceStatusUpdateFailed"
  shows "monitor_multi s t now (pre @ Tick (ps @ Page (xs @ e # ys) # qs) # post) =
     (if ToString (ResourceStatusReason e) = ''Resource update cancelled''
      then monitor_multi s t now (pre @ Tick (ps @ Page (xs @ ys) # qs) # post)
      else (callsBefore (scanEvent_multi s t (now - Hour)) s pre ps,
            Return (Some (ResourceUpdateFailed (ResourceStatus e)
                            (ToString (ResourceStatusReason e))))))"
  unfolding monitor_multi_def
  by (simp add: poll_reach [OF assms(1)] multi_UpdateFailed [OF assms(2-4)])

lemma multi_cancelled_then_failed:
  assumes r: "reaches (scanEvent_multi s t (now - Hour)) s pre ps xs"
    and c: "\<not> stale (now - Hour) c" "\<not> foreign t c"
      "ResourceStatus c = ResourceStatusUpdateFailed"
      "ToString (ResourceStatusReason c) = ''Resource update cancelled''"
    and m: "scanPage (scanEvent_multi s t (now - Hour)) mid = Next"
    and e: "\<not> stale (now - Hour) e" "\<not> foreign t e"
      "ResourceStatus e = ResourceStatusUpdateFailed"
      "ToString (ResourceStatusReason e) \<noteq> ''Resource update cancelled''"
  shows "monitor_multi s t now (pre @ Tick (ps @ Page (xs @ c # mid @ e # ys) # qs) # post) =
     (callsBefore (scanEvent_multi s t (now - Hour)) s pre ps,
      Return (Some (ResourceUpdateFailed (ResourceStatus e)
                      (ToString (ResourceStatusReason e)))))"
proof -
  have "monitor_multi s t now (pre @ Tick (ps @ Page (xs @ c # mid @ e # ys) # qs) # post) =
      monitor_multi s t now (pre @ Tick (ps @ Page (xs @ mid @ e # ys) # qs) # post)"
    using multi_failed [OF r c(1-3), of "mid @ e # ys" qs post] c(4) by simp
  also have "\<dots> = monitor_multi s t now (pre @ Tick (ps @ Page ((xs @ mid) @ e # ys) # qs) # post)"
    by simp
  also have "\<dots> = (callsBefore (scanEvent_multi s t (now - Hour)) s pre ps,
      Return (Some (ResourceUpdateFailed (ResourceStatus e)
                      (ToString (ResourceStatusReason e)))))"
    using multi_failed [OF reaches_append [OF r m] e(1-3), of ys qs post] e(4) by simp
  finally show ?thesis .
qed

lemma single_failed:
  assumes "reaches (scanEvent_single s t (now - Hour)) s pre ps xs"
    and "\<not> stale (now - Hour) e" "\<not> foreign t e"
    and "ResourceStatus e = ResourceStatusUpdateFailed"
  shows "monitor_single s t now (pre @ Tick (ps @ Page (xs @ e # ys) # qs) # post) =
     (callsBefore (scanEvent_single s t (now - Hour)) s pre ps,
      Return (Some (ResourceUpdateFailed (ResourceStatus e)
                      (ToString (ResourceStatusReason e)))))"
  unfolding monitor_single_def
  by (simp add: poll_reach [OF assms(1)] single_UpdateFailed [OF assms(2-4)])

section \<open>Terminal detection\<close>

text \<open>
  Claim C2 in the multi-parameter program. An event that the scan reaches, that is not
  older than the cutoff, carries the run's token, and has the stack's name as logical
  resource identifier and the stack-type marker as resource type, ends the run with
  success when its status is "update complete", and with an error naming the status when
  its status is "update rollback complete" or "rollback failed"; a run that returns
  success has seen such an event with status "update complete", and a run that returns
  the rollback error has seen such an event with the status the error names.
\<close>

lemma multi_stack_event_decides:
  "(reaches (scanEvent_multi s t (now - Hour)) s pre ps xs \<and>
    \<not> stale (now - Hour) e \<and> \<not> foreign t e \<and> isStack s e \<longrightarrow>
      (ResourceStatus e = ResourceStatusUpdateComplete \<longrightarrow>
         monitor_multi s t now (pre @ Tick (ps @ Page (xs @ e # ys) # qs) # post) =
           (callsBefore (scanEvent_multi s t (now - Hour)) s pre ps, Return None)) \<and>
      (ResourceStatus e = ResourceStatusUpdateRollbackComplete \<or>
       ResourceStatus e = ResourceStatusRollbackFailed \<longrightarrow>
         monitor_multi s t now (pre @ Tick (ps @ Page (xs @ e # ys) # qs) # post) =
           (callsBefore (scanEvent_multi s t (now - Hour)) s pre ps,
            Return (Some (RolledBack (ResourceStatus e)))))) \<and>
   (monitor_multi s t now ts = (cs, Return None) \<longrightarrow>
      (\<exists>x \<in> set (events ts). \<not> stale (now - Hour) x \<and> \<not> foreign t x \<and> isStack s x \<and>
         ResourceStatus x = ResourceStatusUpdateComplete)) \<and>
   (monitor_multi s t now ts = (cs, Return (Some (RolledBack st))) \<longrightarrow>
      (\<exists>x \<in> set (events ts). \<not> stale (now - Hour) x \<and> \<not> foreign t x \<and> isStack s x \<and>
         ResourceStatus x = st \<and>
         (st = ResourceStatusUpdateRollbackComplete \<or> st = ResourceStatusRollbackFailed)))"
  using multi_complete [of s t now pre ps xs e ys qs post]
    multi_rolled_back [of s t now pre ps xs e ys qs post]
    multi_success_only [of s t now ts cs]
    multi_rollback_only [of s t now ts cs st]
  by blast

lemma multi_stack_event_examples:
  "monitor_multi ''web'' ''ucs-aa'' (2 * Hour)
     [Tick [Page [ev_foreign, ev_complete, ev_rolled_back]]] =
     ([CallDescribeStackEvents ''web''], Return None) \<and>
   monitor_multi ''web'' ''ucs-aa'' (2 * Hour)
     [Tick [Page [ev_foreign, ev_rolled_back, ev_complete]]] =
     ([CallDescribeStackEvents ''web''], Return (Some (RolledBack ''UPDATE_ROLLBACK_COMPLETE'')))"
proof -
  have rm: "reaches (scanEvent_multi ''web'' ''ucs-aa'' (2 * Hour - Hour)) ''web'' [] [] [ev_foreign]"
    by code_simp
  have cm: "callsBefore (scanEvent_multi ''web'' ''ucs-aa'' (2 * Hour - Hour)) ''web'' [] [] =
      [CallDescribeStackEvents ''web'']"
    by code_simp
  have c: "\<not> stale (2 * Hour - Hour) ev_complete" "\<not> foreign ''ucs-aa'' ev_complete"
    "isStack ''web'' ev_complete" "ResourceStatus ev_complete = ResourceStatusUpdateComplete"
    by code_simp+
  have r: "\<not> stale (2 * Hour - Hour) ev_rolled_back" "\<not> foreign ''ucs-aa'' ev_rolled_back"
    "isStack ''web'' ev_rolled_back"
    "ResourceStatus ev_rolled_back = ResourceStatusUpdateRollbackComplete"
    "ResourceStatus ev_rolled_back = ''UPDATE_ROLLBACK_COMPLETE''"
    by code_simp+
  show ?thesis
    using rm cm c r
      multi_stack_event_decides [of "''web''" "''ucs-aa''" "2 * Hour" "[]" "[]"
        "[ev_foreign]" ev_complete "[ev_rolled_back]" "[]" "[]"]
      multi_stack_event_decides [of "''web''" "''ucs-aa''" "2 * Hour" "[]" "[]"
        "[ev_foreign]" ev_rolled_back "[ev_complete]" "[]" "[]"]
    by simp
qed

text \<open>
  In the single-parameter program the stack's own event ends the run with success when
  its status is "update complete", and only then; the rollback statuses have no case in
  its \<open>switch\<close>, so the body passes over the event and the loop goes on, for as many
  ticks as bring that event.
\<close>

lemma single_stack_event_decides:
  "(reaches (scanEvent_single s t (now - Hour)) s pre ps xs \<and>
    \<not> stale (now - Hour) e \<and> \<not> foreign t e \<and> isStack s e \<and>
    ResourceStatus e = ResourceStatusUpdateComplete \<longrightarrow>
      monitor_single s t now (pre @ Tick (ps @ Page (xs @ e # ys) # qs) # post) =
        (callsBefore (scanEvent_single s t (now - Hour)) s pre ps, Return None)) \<and>
   (monitor_single s t now ts = (cs, Return None) \<longrightarrow>
      (\<exists>x \<in> set (events ts). \<not> stale (now - Hour) x \<and> \<not> foreign t x \<and> isStack s x \<and>
         ResourceStatus x = ResourceStatusUpdateComplete))"
  using single_complete [of s t now pre ps xs e ys qs post]
    single_success_only [of s t now ts cs]
  by blast

lemma single_rollback_keeps_polling:
  assumes "\<not> stale (now - Hour) e" and "\<not> foreign t e" and "isStack s e"
    and "ResourceStatus e = ResourceStatusUpdateRollbackComplete \<or>
         ResourceStatus e = ResourceStatusRollbackFailed"
  shows "monitor_single s t now (replicate n (Tick [Page [e]])) =
     (replicate n (CallDescribeStackEvents s), KeepPolling)"
proof -
  have "scanEvent_single s t (now - Hour) e = Next"
    using assms by (auto simp: scanEvent_single_def status_defs)
  then show ?thesis
    unfolding monitor_single_def by (induction n) simp_all
qed

text \<open>
  Claim C2 fails in the single-parameter program (src/main.go): a rollback status on the
  stack's own event, with the run's token and a fresh time stamp, does not end the run
  with an error naming the status. With the arguments \<open>web\<close>, \<open>ImageTag\<close>, \<open>v2\<close> and that
  event on every tick, \<open>main\<close> has made the update call and one page request for each
  tick and has not ended, where the multi-parameter program ends at the first tick with
  status 1 and the error that names the status. The README of the single-parameter
  program says that the action fails if the update fails.
\<close>

theorem rollback_unnoticed_by_single:
  "main_single ex_rollback_env ex_args =
     ([CallLoadDefaultConfig, CallDescribeStacks ''web'', CallUpdateStack ex_input,
       CallDescribeStackEvents ''web'', CallDescribeStackEvents ''web'',
       CallDescribeStackEvents ''web''], None) \<and>
   main_multi ex_rollback_env ''web'' [] =
     ([CallLoadDefaultConfig, CallDescribeStacks ''web'', CallUpdateStack ex_input,
       CallDescribeStackEvents ''web''],
      Some (Exit 1 (Some (Fatal ''::error::'' (RolledBack ''UPDATE_ROLLBACK_COMPLETE'')))))"
  by code_simp

section \<open>Failure detection\<close>

text \<open>
  Claim C3, as stated, fails for the single-parameter program: it has no exception for
  the reason "Resource update cancelled", so the run fails at the cancelled event with
  that reason, where the multi-parameter program goes on to the event with the genuine
  reason.
\<close>

theorem cancelled_fails_single:
  "monitor_multi ''web'' ''ucs-aa'' (2 * Hour) [Tick [Page [ev_cancelled, ev_failed]]] =
     ([CallDescribeStackEvents ''web''],
      Return (Some (ResourceUpdateFailed ''UPDATE_FAILED'' ''Image not found''))) \<and>
   monitor_single ''web'' ''ucs-aa'' (2 * Hour) [Tick [Page [ev_cancelled, ev_failed]]] =
     ([CallDescribeStackEvents ''web''],
      Return (Some (ResourceUpdateFailed ''UPDATE_FAILED'' ''Resource update cancelled'')))"
  by code_simp

text \<open>
  Claim C3, amended. In the multi-parameter program an event that the scan reaches, that
  is not older than the cutoff, carries the run's token and has the status "update
  failed" ends the run at once with an error that carries its status and reason, unless
  its reason is "Resource update cancelled": then the run goes on exactly as if the event
  were not there, and a later such event of the page with another reason, reached past
  the cancelled one, ends the run with the error that carries its reason. In the
  single-parameter program every such event with the status "update failed" ends the run
  at once with its status and reason, whatever the reason.
\<close>

theorem update_failed_event:
  "(reaches (scanEvent_multi s t (now - Hour)) s pre ps xs \<and>
    \<not> stale (now - Hour) e \<and> \<not> foreign t e \<and>
    ResourceStatus e = ResourceStatusUpdateFailed \<longrightarrow>
      monitor_multi s t now (pre @ Tick (ps @ Page (xs @ e # ys) # qs) # post) =
        (if ToString (ResourceStatusReason e) = ''Resource update cancelled''
         then monitor_multi s t now (pre @ Tick (ps @ Page (xs @ ys) # qs) # post)
         else (callsBefore (scanEvent_multi s t (now - Hour)) s pre ps,
               Return (Some (ResourceUpdateFailed (ResourceStatus e)
                               (ToString (ResourceStatusReason e))))))) \<and>
   (reaches (scanEvent_multi s t (now - Hour)) s pre ps xs \<and>
    \<not> stale (now - Hour) c \<and> \<not> foreign t c \<and>
    ResourceStatus c = ResourceStatusUpdateFailed \<and>
    ToString (ResourceStatusReason c) = ''Resource update cancelled'' \<and>
    scanPage (scanEvent_multi s t (now - Hour)) mid = Next \<and>
    \<not> stale (now - Hour) e \<and> \<not> foreign t e \<and>
    ResourceStatus e = ResourceStatusUpdateFailed \<and>
    ToString (ResourceStatusReason e) \<noteq> ''Resource update cancelled'' \<longrightarrow>
      monitor_multi s t now (pre @ Tick (ps @ Page (xs @ c # mid @ e # ys) # qs) # post) =
        (callsBefore (scanEvent_multi s t (now - Hour)) s pre ps,
         Return (Some (ResourceUpdateFailed (ResourceStatus e)
                         (ToString (ResourceStatusReason e)))))) \<and>
   (reaches (scanEvent_single s t (now - Hour)) s pre ps xs \<and>
    \<not> stale (now - Hour) e \<and> \<not> foreign t e \<and>
    ResourceStatus e = ResourceStatusUpdateFailed \<longrightarrow>
      monitor_single s t now (pre @ Tick (ps @ Page (xs @ e # ys) # qs) # post) =
        (callsBefore (scanEvent_single s t (now - Hour)) s pre ps,
         Return (Some (ResourceUpdateFailed (ResourceStatus e)
                         (ToString (ResourceStatusReason e))))))"
  using multi_failed [of s t now pre ps xs e ys qs post]
    multi_cancelled_then_failed [of s t now pre ps xs c mid e ys qs post]
    single_failed [of s t now pre ps xs e ys qs post]
  by blast

theorem update_failed_event_witness:
  "monitor_multi ''web'' ''ucs-aa'' (2 * Hour)
     [Tick [Page [ev_foreign, ev_failed, ev_complete]]] =
     ([CallDescribeStackEvents ''web''],
      Return (Some (ResourceUpdateFailed ''UPDATE_FAILED'' ''Image not found''))) \<and>
   monitor_multi ''web'' ''ucs-aa'' (2 * Hour)
     [Tick [Page [ev_foreign, ev_cancelled, ev_foreign, ev_failed, ev_complete]]] =
     ([CallDescribeStackEvents ''web''],
      Return (Some (ResourceUpdateFailed ''UPDATE_FAILED'' ''Image not found''))) \<and>
   monitor_single ''web'' ''ucs-aa'' (2 * Hour)
     [Tick [Page [ev_foreign, ev_failed, ev_complete]]] =
     ([CallDescribeStackEvents ''web''],
      Return (Some (ResourceUpdateFailed ''UPDATE_FAILED'' ''Image not found'')))"
proof -
  have rm: "reaches (scanEvent_multi ''web'' ''ucs-aa'' (2 * Hour - Hour)) ''web'' [] [] [ev_foreign]"
    by code_simp
  have rs: "reaches (scanEvent_single ''web'' ''ucs-aa'' (2 * Hour - Hour)) ''web'' [] [] [ev_foreign]"
    by code_simp
  have cm: "callsBefore (scanEvent_multi ''web'' ''ucs-aa'' (2 * Hour - Hour)) ''web'' [] [] =
      [CallDescribeStackEvents ''web'']"
    by code_simp
  have cs: "callsBefore (scanEvent_single ''web'' ''ucs-aa'' (2 * Hour - Hour)) ''web'' [] [] =
      [CallDescribeStackEvents ''web'']"
    by code_simp
  have mid: "scanPage (scanEvent_multi ''web'' ''ucs-aa'' (2 * Hour - Hour)) [ev_foreign] = Next"
    by code_simp
  have f: "\<not> stale (2 * Hour - Hour) ev_failed" "\<not> foreign ''ucs-aa'' ev_failed"
    "ResourceStatus ev_failed = ResourceStatusUpdateFailed"
    "ResourceStatus ev_failed = ''UPDATE_FAILED''"
    "ToString (ResourceStatusReason ev_failed) = ''Image not found''"
    by code_simp+
  have c: "\<not> stale (2 * Hour - Hour) ev_cancelled" "\<not> foreign ''ucs-aa'' ev_cancelled"
    "ResourceStatus ev_cancelled = ResourceStatusUpdateFailed"
    "ToString (ResourceStatusReason ev_cancelled) = ''Resource update cancelled''"
    by code_simp+
  show ?thesis
    using rm rs cm cs mid f c
      update_failed_event [of "''web''" "''ucs-aa''" "2 * Hour" "[]" "[]" "[ev_foreign]"
        ev_failed "[ev_complete]" "[]" "[]" ev_cancelled "[ev_foreign]"]
    by simp
qed


section \<open>The parser\<close>

text \<open>The loop of the parser in terms of what its body makes of a line.\<close>

lemma parse_step:
  "parseKvs_loop (l # ls) out =
     (case lineKind l of
        Blank \<Rightarrow> parseKvs_loop ls out
      | Malformed err \<Rightarrow> Inl err
      | Pair k v \<Rightarrow>
          if fmlookup out k \<noteq> None then Inl (DuplicateKey k)
          else parseKvs_loop ls (fmupd k v out))"
  by (simp add: lineKind_def Let_def split: prod.splits)

declare parseKvs_loop.simps(2) [simp del]

lemma parse_append:
  "parseKvs_loop (xs @ ys) out =
     (case parseKvs_loop xs out of Inl err \<Rightarrow> Inl err | Inr out' \<Rightarrow> parseKvs_loop ys out')"
proof (induction xs arbitrary: out)
  case Nil
  show ?case by simp
next
  case (Cons l xs)
  show ?case
    by (simp only: append_Cons parse_step Cons.IH split: line_kind.splits) simp
qed

lemma parse_wellformed:
  assumes "\<forall>x \<in> set pre. \<forall>err. lineKind x \<noteq> Malformed err"
  shows "(\<exists>k \<in> set (lineKeys pre). parseKvs_loop pre out = Inl (DuplicateKey k)) \<or>
         (\<exists>out'. parseKvs_loop pre out = Inr out' \<and>
                  fmdom' out' = fmdom' out \<union> set (lineKeys pre))"
  using assms
proof (induction pre arbitrary: out)
  case Nil
  show ?case by simp
next
  case (Cons l pre)
  have wf: "\<forall>x \<in> set pre. \<forall>err. lineKind x \<noteq> Malformed err"
    using Cons.prems by simp
  show ?case
  proof (cases "lineKind l")
    case Blank
    then show ?thesis using Cons.IH [OF wf, of out] by (simp add: parse_step)
  next
    case (Malformed err)
    then show ?thesis using Cons.prems by simp
  next
    case (Pair k v)
    show ?thesis
    proof (cases "fmlookup out k")
      case None
      then show ?thesis using Cons.IH [OF wf, of "fmupd k v out"] Pair
        by (auto simp: parse_step)
    next
      case (Some w)
      then show ?thesis using Pair by (simp add: parse_step)
    qed
  qed
qed

lemma parse_distinct:
  assumes "\<forall>x \<in> set pre. \<forall>err. lineKind x \<noteq> Malformed err"
    and "distinct (lineKeys pre)" and "set (lineKeys pre) \<inter> fmdom' out = {}"
  shows "\<exists>out'. parseKvs_loop pre out = Inr out' \<and>
                 fmdom' out' = fmdom' out \<union> set (lineKeys pre)"
  using assms
proof (induction pre arbitrary: out)
  case Nil
  show ?case by simp
next
  case (Cons l pre)
  have wf: "\<forall>x \<in> set pre. \<forall>err. lineKind x \<noteq> Malformed err"
    using Cons.prems by simp
  show ?case
  proof (cases "lineKind l")
    case Blank
    then show ?thesis using Cons.IH [OF wf, of out] Cons.prems by (simp add: parse_step)
  next
    case (Malformed err)
    then show ?thesis using Cons.prems by simp
  next
    case (Pair k v)
    have k: "fmlookup out k = None" "k \<notin> set (lineKeys pre)" "distinct (lineKeys pre)"
      "set (lineKeys pre) \<inter> fmdom' (fmupd k v out) = {}"
      using Cons.prems Pair by (auto simp: fmdom'_notD)
    show ?thesis
      using Cons.IH [OF wf k(3) k(4)] Pair k(1) by (auto simp: parse_step)
  qed
qed

text \<open>
  Claim C9, as stated, fails: the parser reports the first offending line, so a malformed
  line between two well-formed lines with the same key makes it fail with the format
  error, not with the duplicate-key error.
\<close>

theorem malformed_line_comes_first:
  "lineKind ''k=v'' = Pair ''k'' ''v'' \<and> lineKind ''k=w'' = Pair ''k'' ''w'' \<and>
   parseKvs [''k=v'', ''junk'', ''k=w''] = Inl (WrongFormat ''junk'')"
  by code_simp

text \<open>
  Claim C9, amended. When a well-formed line has the key of an earlier well-formed line,
  and every line before it is blank or well-formed, the parser fails with the
  duplicate-key error, whatever the two values are; the error names a key of the earlier
  lines, and it names the key of that line when the keys of the earlier lines are
  pairwise distinct. When every line before a malformed line is blank or well-formed,
  with pairwise distinct keys, the parser fails with the format error of that line,
  whatever follows it.
\<close>

theorem duplicate_key_rejected:
  "((\<forall>x \<in> set pre. \<forall>err. lineKind x \<noteq> Malformed err) \<and>
    lineKind l = Pair k v \<and> k \<in> set (lineKeys pre) \<longrightarrow>
      (\<exists>k' \<in> set (lineKeys pre).
         parseKvs (pre @ l # post) = Inl (DuplicateKey k') \<and>
         (distinct (lineKeys pre) \<longrightarrow> k' = k))) \<and>
   ((\<forall>x \<in> set pre. \<forall>err. lineKind x \<noteq> Malformed err) \<and>
    distinct (lineKeys pre) \<and> lineKind l = Malformed err \<longrightarrow>
      parseKvs (pre @ l # post) = Inl err)"
proof (intro conjI impI)
  assume a: "(\<forall>x \<in> set pre. \<forall>err. lineKind x \<noteq> Malformed err) \<and>
    lineKind l = Pair k v \<and> k \<in> set (lineKeys pre)"
  then have wf: "\<forall>x \<in> set pre. \<forall>err. lineKind x \<noteq> Malformed err"
    and l: "lineKind l = Pair k v" and k: "k \<in> set (lineKeys pre)"
    by simp_all
  show "\<exists>k' \<in> set (lineKeys pre).
      parseKvs (pre @ l # post) = Inl (DuplicateKey k') \<and>
      (distinct (lineKeys pre) \<longrightarrow> k' = k)"
  proof (cases "\<exists>k' \<in> set (lineKeys pre). parseKvs_loop pre fmempty = Inl (DuplicateKey k')")
    case True
    then obtain k' where k': "k' \<in> set (lineKeys pre)"
      "parseKvs_loop pre fmempty = Inl (DuplicateKey k')"
      by auto
    have "\<not> distinct (lineKeys pre)"
    proof
      assume "distinct (lineKeys pre)"
      then show False
        using parse_distinct [OF wf, of fmempty] k'(2) by auto
    qed
    then show ?thesis
      using k' by (auto simp: parseKvs_def parse_append)
  next
    case False
    then obtain out' where o: "parseKvs_loop pre fmempty = Inr out'"
      "fmdom' out' = set (lineKeys pre)"
      using parse_wellformed [OF wf, of fmempty] by auto
    have "fmlookup out' k \<noteq> None"
      using o(2) k by (auto simp: fmlookup_dom'_iff)
    then have "parseKvs (pre @ l # post) = Inl (DuplicateKey k)"
      using o(1) l by (simp add: parseKvs_def parse_append parse_step)
    then show ?thesis
      using k by auto
  qed
next
  assume b: "(\<forall>x \<in> set pre. \<forall>err. lineKind x \<noteq> Malformed err) \<and>
    distinct (lineKeys pre) \<and> lineKind l = Malformed err"
  then have wf: "\<forall>x \<in> set pre. \<forall>err. lineKind x \<noteq> Malformed err"
    and d: "distinct (lineKeys pre)" and l: "lineKind l = Malformed err"
    by simp_all
  obtain out' where "parseKvs_loop pre fmempty = Inr out'"
    using parse_distinct [OF wf d, of fmempty] by auto
  then show "parseKvs (pre @ l # post) = Inl err"
    using l by (simp add: parseKvs_def parse_append parse_step)
qed

theorem duplicate_key_rejected_witness:
  "parseKvs [''k=v'', '' '', '' k = w '', ''junk''] = Inl (DuplicateKey ''k'') \<and>
   parseKvs [''k=v'', [CHR 0xE2, CHR 0x80, CHR 0x83] @ ''k'' @ [CHR 0xC2, CHR 0xA0] @ ''=v''] =
     Inl (DuplicateKey ''k'') \<and>
   parseKvs [''k=v'', [CHR 0xC2, CHR 0xA0] @ ''=x'', ''k=w''] = Inl (EmptyKeyOrValue ''=x'')"
proof -
  have k: "lineKind ''k=v'' = Pair ''k'' ''v''" "lineKind '' '' = Blank"
    by code_simp+
  have wf: "\<forall>x \<in> set [''k=v'', '' '']. \<forall>err. lineKind x \<noteq> Malformed err"
    using k by simp
  have wf1: "\<forall>x \<in> set [''k=v'']. \<forall>err. lineKind x \<noteq> Malformed err"
    using k by simp
  have l: "lineKind '' k = w '' = Pair ''k'' ''w''"
    by code_simp
  have u: "lineKind ([CHR 0xE2, CHR 0x80, CHR 0x83] @ ''k'' @ [CHR 0xC2, CHR 0xA0] @ ''=v'') =
      Pair ''k'' ''v''"
    by code_simp
  have m: "lineKind ([CHR 0xC2, CHR 0xA0] @ ''=x'') = Malformed (EmptyKeyOrValue ''=x'')"
    by code_simp
  have d: "lineKeys [''k=v'', '' ''] = [''k'']" "lineKeys [''k=v''] = [''k'']"
    using k by simp_all
  show ?thesis
    using wf wf1 l u m d
      duplicate_key_rejected [of "[''k=v'', '' '']" "'' k = w ''" "''k''" "''w''" "[''junk'']"]
      duplicate_key_rejected [of "[''k=v'']"
        "[CHR 0xE2, CHR 0x80, CHR 0x83] @ ''k'' @ [CHR 0xC2, CHR 0xA0] @ ''=v''" "''k''" "''v''" "[]"]
      duplicate_key_rejected [of "[''k=v'']" "[CHR 0xC2, CHR 0xA0] @ ''=x''" "''k''" "''v''"
        "[''k=w'']" "EmptyKeyOrValue ''=x''"]
    by simp
qed

text \<open>
  Claim C10. In the multi-parameter program, when the run reaches the parser (the stack
  name is not empty) and the input lines parse to the empty mapping, the run returns the
  error "empty parameters list" and has made no call at all.
\<close>

theorem empty_parameters_rejected:
  assumes "stackName \<noteq> []" and "parseKvs (inputLines e args) = Inr fmempty"
  shows "run_multi e stackName args = ([], Return (Some EmptyParametersList))"
  using assms by (simp add: run_multi_def)

theorem empty_parameters_rejected_witness:
  "parseKvs (inputLines (ex_env [] None) []) = Inr fmempty \<and>
   run_multi (ex_env [] None) ''web'' [] = ([], Return (Some EmptyParametersList)) \<and>
   parseKvs (inputLines (ex_env [] None) ['' '', []]) = Inr fmempty \<and>
   run_multi (ex_env [] None) ''web'' ['' '', []] = ([], Return (Some EmptyParametersList))"
proof -
  have n: "''web'' \<noteq> []"
    by simp
  have a: "parseKvs (inputLines (ex_env [] None) []) = Inr fmempty"
    by code_simp
  have b: "parseKvs (inputLines (ex_env [] None) ['' '', []]) = Inr fmempty"
    by code_simp
  show ?thesis
    using a b empty_parameters_rejected [OF n a] empty_parameters_rejected [OF n b]
    by simp
qed


section \<open>The reconciliation\<close>

text \<open>The loop of the multi-parameter program, entry by entry.\<close>

lemma multi_loop_acc:
  "reconcile_multi_loop cur acc m =
     (acc @ fst (reconcile_multi_loop cur [] m), snd (reconcile_multi_loop cur [] m))"
proof (induction cur arbitrary: acc m)
  case Nil
  show ?case by simp
next
  case (Cons p ps)
  show ?case
  proof (cases "fmlookup m (ToString (ParameterKey p))")
    case None
    then show ?thesis
      using Cons.IH [of "acc @ [usePrevious (ToString (ParameterKey p))]" m]
        Cons.IH [of "[usePrevious (ToString (ParameterKey p))]" m]
      by (simp add: Let_def)
  next
    case (Some v)
    then show ?thesis
      using Cons.IH [of "acc @ [explicit (ToString (ParameterKey p)) v]"
          "fmdrop (ToString (ParameterKey p)) m"]
        Cons.IH [of "[explicit (ToString (ParameterKey p)) v]"
          "fmdrop (ToString (ParameterKey p)) m"]
      by (simp add: Let_def)
  qed
qed

lemma multi_loop_Cons:
  "reconcile_multi_loop (p # ps) [] m =
     ((case fmlookup m (ToString (ParameterKey p)) of
         Some v \<Rightarrow> explicit (ToString (ParameterKey p)) v
       | None \<Rightarrow> usePrevious (ToString (ParameterKey p))) #
      fst (reconcile_multi_loop ps [] (fmdrop (ToString (ParameterKey p)) m)),
      snd (reconcile_multi_loop ps [] (fmdrop (ToString (ParameterKey p)) m)))"
proof (cases "fmlookup m (ToString (ParameterKey p))")
  case None
  then have "fmdrop (ToString (ParameterKey p)) m = m"
    by (simp add: fmdrop_idle' fmdom'_notI)
  then show ?thesis
    using None multi_loop_acc [of ps "[usePrevious (ToString (ParameterKey p))]" m]
    by (simp add: Let_def)
next
  case (Some v)
  then show ?thesis
    using multi_loop_acc [of ps "[explicit (ToString (ParameterKey p)) v]"
        "fmdrop (ToString (ParameterKey p)) m"]
    by (simp add: Let_def)
qed

declare reconcile_multi_loop.simps(2) [simp del]

lemma multi_loop_rest:
  "snd (reconcile_multi_loop cur [] m) = fmdrop_set (set (keysOf cur)) m"
proof (induction cur arbitrary: m)
  case Nil
  show ?case by (simp add: keysOf_def)
next
  case (Cons p ps)
  show ?case
    using Cons.IH [of "fmdrop (ToString (ParameterKey p)) m"]
    by (simp add: multi_loop_Cons keysOf_def)
qed

lemma multi_loop_length:
  "length (fst (reconcile_multi_loop cur [] m)) = length cur"
  by (induction cur arbitrary: m) (simp_all add: multi_loop_Cons)

lemma keysOf_explicit [simp]: "ToString (ParameterKey (explicit k v)) = k"
  by (simp add: explicit_def ToString_def)

lemma keysOf_usePrevious [simp]: "ToString (ParameterKey (usePrevious k)) = k"
  by (simp add: usePrevious_def ToString_def)

lemma multi_loop_keys:
  "keysOf (fst (reconcile_multi_loop cur [] m)) = keysOf cur"
proof (induction cur arbitrary: m)
  case Nil
  show ?case by (simp add: keysOf_def)
next
  case (Cons p ps)
  show ?case
    using Cons.IH [of "fmdrop (ToString (ParameterKey p)) m"]
    by (simp add: multi_loop_Cons keysOf_def split: option.splits)
qed

lemma multi_loop_nth:
  "i < length cur \<Longrightarrow>
   fst (reconcile_multi_loop cur [] m) ! i =
     (if keysOf cur ! i \<in> fmdom' m \<and> keysOf cur ! i \<notin> set (take i (keysOf cur))
      then explicit (keysOf cur ! i) (the (fmlookup m (keysOf cur ! i)))
      else usePrevious (keysOf cur ! i))"
proof (induction cur arbitrary: i m)
  case Nil
  then show ?case by simp
next
  case (Cons p ps)
  show ?case
  proof (cases i)
    case 0
    then show ?thesis
      by (auto simp: multi_loop_Cons keysOf_def fmlookup_dom'_iff split: option.splits)
  next
    case (Suc j)
    then have j: "j < length ps" using Cons.prems by simp
    show ?thesis
      using Cons.IH [OF j, of "fmdrop (ToString (ParameterKey p)) m"] Suc
      by (auto simp: multi_loop_Cons keysOf_def)
  qed
qed

lemma multi_loop_distinct:
  "distinct (keysOf cur) \<Longrightarrow>
   fst (reconcile_multi_loop cur [] m) =
     map (\<lambda>k. case fmlookup m k of Some v \<Rightarrow> explicit k v | None \<Rightarrow> usePrevious k)
       (keysOf cur)"
proof (induction cur arbitrary: m)
  case Nil
  show ?case by (simp add: keysOf_def)
next
  case (Cons p ps)
  have d: "distinct (keysOf ps)" "ToString (ParameterKey p) \<notin> set (keysOf ps)"
    using Cons.prems by (simp_all add: keysOf_def)
  have "map (\<lambda>k. case fmlookup (fmdrop (ToString (ParameterKey p)) m) k of
                    Some v \<Rightarrow> explicit k v | None \<Rightarrow> usePrevious k) (keysOf ps) =
        map (\<lambda>k. case fmlookup m k of Some v \<Rightarrow> explicit k v | None \<Rightarrow> usePrevious k)
          (keysOf ps)"
    using d(2) by (intro map_cong) auto
  then show ?case
    using Cons.IH [OF d(1), of "fmdrop (ToString (ParameterKey p)) m"]
    by (simp add: multi_loop_Cons keysOf_def)
qed

lemma reconcile_multi_eq:
  "reconcile_multi cur m =
     (if fmdom' m \<subseteq> set (keysOf cur) then Inr (fst (reconcile_multi_loop cur [] m))
      else Inl (UnknownParameters
                  (sorted_list_of_fset (fmdom (fmdrop_set (set (keysOf cur)) m)))))"
proof -
  have "fmdrop_set (set (keysOf cur)) m = fmempty \<longleftrightarrow> fmdom' m \<subseteq> set (keysOf cur)"
  proof
    assume "fmdrop_set (set (keysOf cur)) m = fmempty"
    then have "fmdom' (fmdrop_set (set (keysOf cur)) m) = {}" by simp
    then show "fmdom' m \<subseteq> set (keysOf cur)" by auto
  next
    assume "fmdom' m \<subseteq> set (keysOf cur)"
    then show "fmdrop_set (set (keysOf cur)) m = fmempty"
      by (intro fmap_ext) (auto simp: fmlookup_dom'_iff)
  qed
  then show ?thesis
    using multi_loop_rest [of cur m]
    by (cases "reconcile_multi_loop cur [] m") (auto simp: reconcile_multi_def)
qed

lemma single_loop_eq:
  "reconcile_single_loop k v cur acc seen =
     (if \<exists>p \<in> set cur. ToString (ParameterKey p) = k \<and> ToString (ParameterValue p) = v
      then Inl AlreadySet
      else Inr (acc @ map usePrevious (filter (\<lambda>x. x \<noteq> k) (keysOf cur)),
                seen \<or> k \<in> set (keysOf cur)))"
  by (induction cur arbitrary: acc seen) (auto simp: keysOf_def Let_def)

lemma reconcile_single_eq:
  "reconcile_single k v cur =
     (if \<exists>p \<in> set cur. ToString (ParameterKey p) = k \<and> ToString (ParameterValue p) = v
      then Inl AlreadySet
      else if k \<notin> set (keysOf cur) then Inl NoSuchKey
      else Inr (map usePrevious (filter (\<lambda>x. x \<noteq> k) (keysOf cur)) @ [explicit k v]))"
  by (simp add: reconcile_single_def single_loop_eq)

lemma sorted_names:
  "sorted (sorted_list_of_fset S) \<and> distinct (sorted_list_of_fset S)"
  by (simp add: sorted_list_of_fset.rep_eq)

text \<open>
  Claim C1, as stated, fails in two places. In the multi-parameter program the override
  is deleted when it is used, so a second entry with an overridden key is marked
  use-previous. In the single-parameter program the entry of the overridden key is left
  out where it stands and put last, so the order of the current list is not kept.
\<close>

theorem payload_counterexample:
  "reconcile_multi [exParameter ''k'' ''a'', exParameter ''k'' ''b''] (fmupd ''k'' ''v'' fmempty) =
     Inr [explicit ''k'' ''v'', usePrevious ''k''] \<and>
   reconcile_single ''ImageTag'' ''v2''
     [exParameter ''ImageTag'' ''v1'', exParameter ''Env'' ''prod''] =
     Inr [usePrevious ''Env'', explicit ''ImageTag'' ''v2'']"
  by code_simp

text \<open>
  Claim C1, amended. In the multi-parameter program, for every current list and every
  override mapping whose keys all occur in it, the reconciliation succeeds with as many
  entries as the current list has and with its keys in its order; the first entry of each
  overridden key carries the override's explicit value, and every other entry (of a key
  without override, or a repeated entry of an overridden key) is marked use-previous. When
  the keys of the current list are pairwise distinct this is: every overridden key's entry
  carries the override's value and every other entry is marked use-previous. In the
  single-parameter program, when the key occurs and the value is not already set, the
  payload is the entries of the other keys in their order, marked use-previous, followed
  by one explicit entry for the key.
\<close>

theorem reconciled_payload:
  "(fmdom' ov \<subseteq> set (keysOf cur) \<longrightarrow>
      (\<exists>out. reconcile_multi cur ov = Inr out \<and> length out = length cur \<and>
         keysOf out = keysOf cur \<and>
         (\<forall>i < length cur. out ! i =
            (if keysOf cur ! i \<in> fmdom' ov \<and> keysOf cur ! i \<notin> set (take i (keysOf cur))
             then explicit (keysOf cur ! i) (the (fmlookup ov (keysOf cur ! i)))
             else usePrevious (keysOf cur ! i))) \<and>
         (distinct (keysOf cur) \<longrightarrow>
            out = map (\<lambda>k. case fmlookup ov k of
                              Some v \<Rightarrow> explicit k v | None \<Rightarrow> usePrevious k)
                    (keysOf cur)))) \<and>
   (k \<in> set (keysOf cur) \<and>
    \<not> (\<exists>p \<in> set cur. ToString (ParameterKey p) = k \<and> ToString (ParameterValue p) = v) \<longrightarrow>
      reconcile_single k v cur =
        Inr (map usePrevious (filter (\<lambda>x. x \<noteq> k) (keysOf cur)) @ [explicit k v]))"
  using multi_loop_length [of cur ov] multi_loop_keys [of cur ov]
    multi_loop_nth [of _ cur ov] multi_loop_distinct [of cur ov]
  by (simp add: reconcile_multi_eq reconcile_single_eq)

theorem reconciled_payload_witness:
  "reconcile_multi (Parameters ex_stack) (fmupd ''ImageTag'' ''v2'' fmempty) =
     Inr [usePrevious ''Env'', explicit ''ImageTag'' ''v2''] \<and>
   reconcile_single ''Env'' ''test'' (Parameters ex_stack) =
     Inr [usePrevious ''ImageTag'', explicit ''Env'' ''test'']"
proof -
  have ks: "keysOf (Parameters ex_stack) = [''Env'', ''ImageTag'']"
    by code_simp
  have sub: "fmdom' (fmupd ''ImageTag'' ''v2'' fmempty) \<subseteq> set (keysOf (Parameters ex_stack))"
    using ks by simp
  have d: "distinct (keysOf (Parameters ex_stack))"
    using ks by simp
  have k: "''Env'' \<in> set (keysOf (Parameters ex_stack))"
    using ks by simp
  have n: "\<not> (\<exists>p \<in> set (Parameters ex_stack).
      ToString (ParameterKey p) = ''Env'' \<and> ToString (ParameterValue p) = ''test'')"
    by (simp add: ex_stack_def ToString_def)
  show ?thesis
    using reconciled_payload [of "fmupd ''ImageTag'' ''v2'' fmempty" "Parameters ex_stack"
        "''Env''" "''test''"] sub d k n
    by (auto simp: ks)
qed

section \<open>The runs up to the update call\<close>

lemma run_multi_reach:
  assumes "stackName \<noteq> []" "parseKvs (inputLines e args) = Inr ov" "ov \<noteq> fmempty"
    "LoadDefaultConfig e = None" "DescribeStacks e stackName = Inr [st]"
  shows "run_multi e stackName args =
     (case reconcile_multi (Parameters st) ov of
        Inl err \<Rightarrow> ([CallLoadDefaultConfig, CallDescribeStacks stackName], Return (Some err))
      | Inr params \<Rightarrow>
          (case submit monitor_multi e stackName params st of
             (cs, out) \<Rightarrow> (CallLoadDefaultConfig # CallDescribeStacks stackName # cs, out)))"
  using assms by (simp add: run_multi_def)

lemma run_single_reach:
  assumes "validate a = None" "LoadDefaultConfig e = None"
    "DescribeStacks e (stack a) = Inr [st]"
  shows "run_single e a =
     (case reconcile_single (key a) (val a) (Parameters st) of
        Inl err \<Rightarrow> ([CallLoadDefaultConfig, CallDescribeStacks (stack a)], Return (Some err))
      | Inr params \<Rightarrow>
          (case submit monitor_single e (stack a) params st of
             (cs, out) \<Rightarrow> (CallLoadDefaultConfig # CallDescribeStacks (stack a) # cs, out)))"
  using assms by (simp add: run_single_def)

lemma submit_fails:
  assumes "UpdateStack e (updateInput s (newToken (randRead e)) params st) = Some x"
  shows "submit mon e s params st =
     ([CallUpdateStack (updateInput s (newToken (randRead e)) params st)],
      Return (Some (SDK x)))"
  using assms by (simp add: submit_def Let_def)

lemma nothingToUpdate_SDK:
  "nothingToUpdate (SDK x) \<longleftrightarrow>
     x = APIError ''ValidationError'' ''No updates are to be performed.''"
  by (cases x) (auto simp: nothingToUpdate_def)

text \<open>
  Claim C6. In the multi-parameter program, when the run reaches the reconciliation (the
  stack name is not empty, the input parses to the override mapping, the configuration
  loads and exactly one stack is described) and some override key is not a key of the
  stack's parameters, the run returns the unknown-parameters error without an update
  call; the error names exactly the override keys that the stack does not have, in
  ascending order and once each.
\<close>

theorem unknown_parameters_rejected:
  assumes "stackName \<noteq> []" and "parseKvs (inputLines e args) = Inr ov"
    and "LoadDefaultConfig e = None" and "DescribeStacks e stackName = Inr [st]"
    and "\<not> fmdom' ov \<subseteq> set (keysOf (Parameters st))"
  shows "run_multi e stackName args =
           ([CallLoadDefaultConfig, CallDescribeStacks stackName],
            Return (Some (UnknownParameters (unmatched (Parameters st) ov)))) \<and>
         sorted (unmatched (Parameters st) ov) \<and> distinct (unmatched (Parameters st) ov) \<and>
         set (unmatched (Parameters st) ov) = fmdom' ov - set (keysOf (Parameters st))"
proof -
  have "ov \<noteq> fmempty" using assms(5) by auto
  then have "run_multi e stackName args =
           ([CallLoadDefaultConfig, CallDescribeStacks stackName],
            Return (Some (UnknownParameters (unmatched (Parameters st) ov))))"
    using assms by (simp add: run_multi_reach reconcile_multi_eq unmatched_def)
  moreover have "set (unmatched (Parameters st) ov) = fmdom' ov - set (keysOf (Parameters st))"
    by (simp add: unmatched_def fmdom'_alt_def [symmetric])
  ultimately show ?thesis
    by (simp add: unmatched_def sorted_names)
qed

theorem unknown_parameters_rejected_witness:
  "run_multi (ex_env [] None) ''web'' [''Region=us-east-1'', ''Az=b'', ''Env=test''] =
     ([CallLoadDefaultConfig, CallDescribeStacks ''web''],
      Return (Some (UnknownParameters [''Az'', ''Region'']))) \<and>
   unknownParametersText [''Az'', ''Region''] =
     ''stack has no parameters with these names: Az, Region''"
proof -
  have t: "unknownParametersText [''Az'', ''Region''] =
      ''stack has no parameters with these names: Az, Region''"
    by code_simp
  have n: "''web'' \<noteq> []" by simp
  have p: "parseKvs (inputLines (ex_env [] None) [''Region=us-east-1'', ''Az=b'', ''Env=test'']) =
      Inr (fmupd ''Env'' ''test'' (fmupd ''Az'' ''b'' (fmupd ''Region'' ''us-east-1'' fmempty)))"
    by code_simp
  have c: "LoadDefaultConfig (ex_env [] None) = None" by code_simp
  have d: "DescribeStacks (ex_env [] None) ''web'' = Inr [ex_stack]" by code_simp
  have ks: "keysOf (Parameters ex_stack) = [''Env'', ''ImageTag'']"
    by code_simp
  have u: "\<not> fmdom' (fmupd ''Env'' ''test'' (fmupd ''Az'' ''b''
      (fmupd ''Region'' ''us-east-1'' fmempty))) \<subseteq> set (keysOf (Parameters ex_stack))"
    using ks by simp
  have m: "unmatched (Parameters ex_stack) (fmupd ''Env'' ''test'' (fmupd ''Az'' ''b''
      (fmupd ''Region'' ''us-east-1'' fmempty))) = [''Az'', ''Region'']"
    by code_simp
  show ?thesis
    using unknown_parameters_rejected [OF n p c d u] m t by simp
qed

text \<open>
  Claim C8. In the single-parameter program, when the run reaches the reconciliation (the
  arguments are not empty, the configuration loads and exactly one stack is described) and
  the stack has the requested value for the key, the run returns \<open>errAlreadySet\<close>, has
  made no update call, and \<open>main\<close> prints the warning and ends with status 0.
\<close>

theorem already_set_is_benign:
  assumes "validate a = None" and "LoadDefaultConfig e = None"
    and "DescribeStacks e (stack a) = Inr [st]"
    and "\<exists>p \<in> set (Parameters st).
           ToString (ParameterKey p) = key a \<and> ToString (ParameterValue p) = val a"
  shows "run_single e a =
           ([CallLoadDefaultConfig, CallDescribeStacks (stack a)], Return (Some AlreadySet)) \<and>
         main_single e a =
           ([CallLoadDefaultConfig, CallDescribeStacks (stack a)],
            Some (Exit 0 (Some (Warning (githubWarnPrefix e) errAlreadySetText))))"
  using assms
  by (simp add: main_single_def run_single_reach reconcile_single_eq report_single_def)

theorem already_set_is_benign_witness:
  "run_single (ex_env [] None) \<lparr>stack = ''web'', key = ''ImageTag'', val = ''v1''\<rparr> =
     ([CallLoadDefaultConfig, CallDescribeStacks ''web''], Return (Some AlreadySet)) \<and>
   main_single (ex_env [] None) \<lparr>stack = ''web'', key = ''ImageTag'', val = ''v1''\<rparr> =
     ([CallLoadDefaultConfig, CallDescribeStacks ''web''],
      Some (Exit 0 (Some (Warning ''::warning::''
        ''stack already has required parameter value''))))"
proof -
  have v: "validate \<lparr>stack = ''web'', key = ''ImageTag'', val = ''v1''\<rparr> = None"
    by code_simp
  have c: "LoadDefaultConfig (ex_env [] None) = None" by code_simp
  have d: "DescribeStacks (ex_env [] None)
      (stack \<lparr>stack = ''web'', key = ''ImageTag'', val = ''v1''\<rparr>) = Inr [ex_stack]"
    by code_simp
  have p: "\<exists>p \<in> set (Parameters ex_stack).
      ToString (ParameterKey p) = key \<lparr>stack = ''web'', key = ''ImageTag'', val = ''v1''\<rparr> \<and>
      ToString (ParameterValue p) = val \<lparr>stack = ''web'', key = ''ImageTag'', val = ''v1''\<rparr>"
    by (simp add: ex_stack_def ToString_def)
  have w: "githubWarnPrefix (ex_env [] None) = ''::warning::''"
    by code_simp
  show ?thesis
    using already_set_is_benign [OF v c d p] w by (simp add: errAlreadySetText_def)
qed

text \<open>
  Claim C7. In both programs, when the update call fails, \<open>main\<close> prints the warning
  "nothing to update" and ends with status 0 if the error is the API error with code
  "ValidationError" and message "No updates are to be performed.", and prints the error
  and ends with status 1 in every other case.
\<close>

theorem nothing_to_update_classification:
  "(stackName \<noteq> [] \<and> parseKvs (inputLines e args) = Inr ov \<and> ov \<noteq> fmempty \<and>
    LoadDefaultConfig e = None \<and> DescribeStacks e stackName = Inr [st] \<and>
    reconcile_multi (Parameters st) ov = Inr params \<and>
    UpdateStack e (updateInput stackName (newToken (randRead e)) params st) = Some x \<longrightarrow>
      main_multi e stackName args =
        ([CallLoadDefaultConfig, CallDescribeStacks stackName,
          CallUpdateStack (updateInput stackName (newToken (randRead e)) params st)],
         Some (if x = APIError ''ValidationError'' ''No updates are to be performed.''
               then Exit 0 (Some (Warning (githubWarnPrefix e) ''nothing to update''))
               else Exit 1 (Some (Fatal (githubErrPrefix e) (SDK x)))))) \<and>
   (validate a = None \<and> LoadDefaultConfig e = None \<and>
    DescribeStacks e (stack a) = Inr [st] \<and>
    reconcile_single (key a) (val a) (Parameters st) = Inr params \<and>
    UpdateStack e (updateInput (stack a) (newToken (randRead e)) params st) = Some x \<longrightarrow>
      main_single e a =
        ([CallLoadDefaultConfig, CallDescribeStacks (stack a),
          CallUpdateStack (updateInput (stack a) (newToken (randRead e)) params st)],
         Some (if x = APIError ''ValidationError'' ''No updates are to be performed.''
               then Exit 0 (Some (Warning (githubWarnPrefix e) ''nothing to update''))
               else Exit 1 (Some (Fatal (githubErrPrefix e) (SDK x))))))"
  by (simp add: main_multi_def main_single_def run_multi_reach run_single_reach submit_fails
      report_multi_def report_single_def nothingToUpdate_SDK)

theorem nothing_to_update_classification_witness:
  "main_multi (ex_env ''ImageTag=v2'' (Some ex_noUpdates)) ''web'' [] =
     ([CallLoadDefaultConfig, CallDescribeStacks ''web'', CallUpdateStack ex_input],
      Some (Exit 0 (Some (Warning ''::warning::'' ''nothing to update'')))) \<and>
   main_multi (ex_env ''ImageTag=v2'' (Some ex_inProgress)) ''web'' [] =
     ([CallLoadDefaultConfig, CallDescribeStacks ''web'', CallUpdateStack ex_input],
      Some (Exit 1 (Some (Fatal ''::error::'' (SDK ex_inProgress))))) \<and>
   main_single (ex_env [] (Some ex_noUpdates)) ex_args =
     ([CallLoadDefaultConfig, CallDescribeStacks ''web'', CallUpdateStack ex_input],
      Some (Exit 0 (Some (Warning ''::warning::'' ''nothing to update'')))) \<and>
   main_single (ex_env [] (Some ex_inProgress)) ex_args =
     ([CallLoadDefaultConfig, CallDescribeStacks ''web'', CallUpdateStack ex_input],
      Some (Exit 1 (Some (Fatal ''::error::'' (SDK ex_inProgress)))))"
proof -
  have n: "''web'' \<noteq> []" "fmupd ''ImageTag'' ''v2'' fmempty \<noteq> fmempty"
    by code_simp+
  have p: "parseKvs (inputLines (ex_env ''ImageTag=v2'' (Some y)) []) =
      Inr (fmupd ''ImageTag'' ''v2'' fmempty)" for y
    unfolding ex_env_def inputLines_def by code_simp
  have v: "validate ex_args = None" "stack ex_args = ''web''"
    by code_simp+
  have e: "LoadDefaultConfig (ex_env i (Some y)) = None"
    "DescribeStacks (ex_env i (Some y)) ''web'' = Inr [ex_stack]"
    "randRead (ex_env i (Some y)) = replicate 20 (CHR 0xAA)"
    "UpdateStack (ex_env i (Some y)) z = Some y"
    "githubWarnPrefix (ex_env i (Some y)) = ''::warning::''"
    "githubErrPrefix (ex_env i (Some y)) = ''::error::''" for i y z
    by (simp_all add: ex_env_def githubWarnPrefix_def githubErrPrefix_def)
  have rm: "reconcile_multi (Parameters ex_stack) (fmupd ''ImageTag'' ''v2'' fmempty) =
      Inr [usePrevious ''Env'', explicit ''ImageTag'' ''v2'']"
    by code_simp
  have rs: "reconcile_single (key ex_args) (val ex_args) (Parameters ex_stack) =
      Inr [usePrevious ''Env'', explicit ''ImageTag'' ''v2'']"
    by code_simp
  have x: "ex_noUpdates = APIError ''ValidationError'' ''No updates are to be performed.''"
    "ex_inProgress \<noteq> APIError ''ValidationError'' ''No updates are to be performed.''"
    by (simp_all add: ex_noUpdates_def ex_inProgress_def)
  show ?thesis
    using n p v e rm rs x
      nothing_to_update_classification [of "''web''" "ex_env ''ImageTag=v2'' (Some ex_noUpdates)"
        "[]" "fmupd ''ImageTag'' ''v2'' fmempty" ex_stack
        "[usePrevious ''Env'', explicit ''ImageTag'' ''v2'']" ex_noUpdates ex_args]
      nothing_to_update_classification [of "''web''" "ex_env ''ImageTag=v2'' (Some ex_inProgress)"
        "[]" "fmupd ''ImageTag'' ''v2'' fmempty" ex_stack
        "[usePrevious ''Env'', explicit ''ImageTag'' ''v2'']" ex_inProgress ex_args]
      nothing_to_update_classification [of "[]" "ex_env [] (Some ex_noUpdates)"
        "[]" fmempty ex_stack
        "[usePrevious ''Env'', explicit ''ImageTag'' ''v2'']" ex_noUpdates ex_args]
      nothing_to_update_classification [of "[]" "ex_env [] (Some ex_inProgress)"
        "[]" fmempty ex_stack
        "[usePrevious ''Env'', explicit ''ImageTag'' ''v2'']" ex_inProgress ex_args]
    by (simp add: ex_input_def)
qed

end
